theory Spec2Isabelle
  imports Complex_Main "HOL-Library.Sublist" "HOL-Library.Log_Nat"
begin



section \<open>JavaScript values used by the pipeline\<close>

text \<open>
  JavaScript numbers are modelled by exact rationals. The sources only add, subtract,
  multiply, divide, compare and round; on the integer inputs the user interface supplies
  (\<open>parseInt(..) || 0\<close>, \<open>naturalWidth\<close>, byte sizes) the exact value and the double agree
  wherever a theorem below evaluates the code at a concrete input. \<open>null\<close> is \<open>None\<close>.
  The savings percentage is the exception: its quotient and its product are rounded to
  the binary64 format as the machine does, since the rounding decides the result at a tie.
\<close>

type_synonym number = rat

definition js_round :: "number \<Rightarrow> int" where
  \<comment> \<open>\<open>Math.round\<close>: the nearest integer, a tie going up.\<close>
  "js_round x = \<lfloor>x + 1 / 2\<rfloor>"

text \<open>
  Rounding to binary64, to nearest with ties to even: a positive \<open>x\<close> with
  \<open>2^e \<le> x < 2^(e+1)\<close> is rounded to a multiple of \<open>2^(e-52)\<close>. Overflow and subnormal
  numbers do not arise for the quotients and products this is applied to.
\<close>

definition round_half_even :: "rat \<Rightarrow> int" where
  "round_half_even y =
     (let f = \<lfloor>y\<rfloor>; d = y - of_int f
      in if d < 1 / 2 then f else if d > 1 / 2 then f + 1 else if even f then f else f + 1)"

definition ilog2 :: "rat \<Rightarrow> int" where
  \<comment> \<open>for \<open>x > 0\<close>, the exponent \<open>e\<close> with \<open>2^e \<le> x < 2^(e+1)\<close>.\<close>
  "ilog2 x =
     (if 1 \<le> x then int (floorlog 2 (nat \<lfloor>x\<rfloor>)) - 1
      else - int (floorlog 2 (nat (\<lceil>1 / x\<rceil> - 1))))"

definition to_double_pos :: "rat \<Rightarrow> rat" where
  "to_double_pos x =
     (let ulp = 2 powi (ilog2 x - 52) in of_int (round_half_even (x / ulp)) * ulp)"

definition to_double :: "rat \<Rightarrow> number" where
  "to_double x = (if x = 0 then 0 else if x < 0 then - to_double_pos (- x) else to_double_pos x)"

definition truthy :: "number option \<Rightarrow> bool" where
  \<comment> \<open>a number-or-null in a boolean position: \<open>null\<close> and \<open>0\<close> are falsy.\<close>
  "truthy v = (case v of None \<Rightarrow> False | Some x \<Rightarrow> x \<noteq> 0)"

definition to_number :: "number option \<Rightarrow> number" where
  \<comment> \<open>\<open>null\<close> in an arithmetic position is \<open>0\<close>.\<close>
  "to_number v = (case v of None \<Rightarrow> 0 | Some x \<Rightarrow> x)"

definition or_else :: "number option \<Rightarrow> number \<Rightarrow> number" where
  \<comment> \<open>\<open>v || d\<close> with \<open>d\<close> a number.\<close>
  "or_else v d = (case v of None \<Rightarrow> d | Some x \<Rightarrow> if x = 0 then d else x)"

definition toLowerCase :: "string \<Rightarrow> string" where
  \<comment> \<open>on ASCII letters; no other character lower-cases to a letter of a format token.\<close>
  "toLowerCase s =
     map (\<lambda>c. case map_of (zip ''ABCDEFGHIJKLMNOPQRSTUVWXYZ'' ''abcdefghijklmnopqrstuvwxyz'') c of
                Some l \<Rightarrow> l
              | None \<Rightarrow> c) s"

fun str_includes :: "string \<Rightarrow> string \<Rightarrow> bool" where
  \<comment> \<open>\<open>s.includes(sub)\<close>: \<open>sub\<close> occurs in \<open>s\<close> as a contiguous run.\<close>
  "str_includes [] sub = (sub = [])"
| "str_includes (c # cs) sub = (prefix sub (c # cs) \<or> str_includes cs sub)"

fun lastIndexOf_from :: "string \<Rightarrow> char \<Rightarrow> int \<Rightarrow> int \<Rightarrow> int" where
  "lastIndexOf_from [] c i found = found"
| "lastIndexOf_from (x # xs) c i found = lastIndexOf_from xs c (i + 1) (if x = c then i else found)"

definition lastIndexOf :: "string \<Rightarrow> char \<Rightarrow> int" where
  \<comment> \<open>the index of the last occurrence, \<open>-1\<close> when there is none.\<close>
  "lastIndexOf s c = lastIndexOf_from s c 0 (- 1)"

definition slice0 :: "string \<Rightarrow> int \<Rightarrow> string" where
  \<comment> \<open>\<open>s.slice(0, e)\<close>; a negative \<open>e\<close> counts from the end.\<close>
  "slice0 s e = (if e < 0 then take (nat (int (length s) + e)) s else take (nat e) s)"

section \<open>utils.js\<close>

datatype ErrorCode =
    FILE_TOO_LARGE | INVALID_FILE_TYPE | FILE_CORRUPTED | CANVAS_MEMORY | COMPRESSION_FAILED
  | CONVERSION_FAILED | WEBWORKER_UNAVAILABLE | CANVAS_UNSUPPORTED | LIBRARY_LOAD_FAILED

datatype js_error =
    ImageOptimizerError (message: string) (code: ErrorCode) (recoverable: bool)
  | Error (message: string)

definition mkImageOptimizerError :: "string \<Rightarrow> ErrorCode \<Rightarrow> js_error" where
  \<comment> \<open>the constructor with its default \<open>recoverable = true\<close>.\<close>
  "mkImageOptimizerError msg c = ImageOptimizerError msg c True"

fun instanceof_ImageOptimizerError :: "js_error \<Rightarrow> bool" where
  "instanceof_ImageOptimizerError (ImageOptimizerError _ _ _) = True"
| "instanceof_ImageOptimizerError (Error _) = False"

record js_file =
  file_name :: string
  file_size :: nat
  file_type :: string

definition MAX_FILE_SIZE :: nat where
  "MAX_FILE_SIZE = 10 * 1024 * 1024"

definition ALLOWED_TYPES :: "string list" where
  "ALLOWED_TYPES = [''image/jpeg'', ''image/png'', ''image/webp'', ''image/gif'']"

definition validateFile :: "(nat \<Rightarrow> string) \<Rightarrow> js_file option \<Rightarrow> js_error + bool" where
  \<comment> \<open>\<open>formatFileSize\<close> (logarithms and \<open>toFixed\<close>) only feeds the message and is a parameter.\<close>
  "validateFile formatFileSize f =
     (case f of
        None \<Rightarrow> Inl (mkImageOptimizerError ''No file selected'' INVALID_FILE_TYPE)
      | Some fl \<Rightarrow>
          if file_size fl > MAX_FILE_SIZE then
            Inl (mkImageOptimizerError
                   (''File size '' @ formatFileSize (file_size fl) @ '' exceeds 10MB limit'')
                   FILE_TOO_LARGE)
          else if file_type fl \<notin> set ALLOWED_TYPES then
            Inl (mkImageOptimizerError
                   (''File type '' @ (if file_type fl = [] then ''unknown'' else file_type fl)
                      @ '' is not supported'')
                   INVALID_FILE_TYPE)
          else Inr True)"

text \<open>The two lookup tables are object literals read with \<open>table[key] || default\<close>. The keys
  \<open>constructor\<close> and \<open>__proto__\<close>, which such a read finds on the prototype of the table, are
  outside the model.\<close>

definition getMimeType :: "string \<Rightarrow> string" where
  "getMimeType format =
     (case map_of [(''jpeg'', ''image/jpeg''), (''jpg'', ''image/jpeg''), (''png'', ''image/png''),
                   (''webp'', ''image/webp''), (''gif'', ''image/gif'')] (toLowerCase format) of
        Some m \<Rightarrow> m
      | None \<Rightarrow> ''image/jpeg'')"

definition getExtensionFromMime :: "string \<Rightarrow> string" where
  "getExtensionFromMime mimeType =
     (case map_of [(''image/jpeg'', ''jpg''), (''image/png'', ''png''), (''image/webp'', ''webp''),
                   (''image/gif'', ''gif'')] mimeType of
        Some e \<Rightarrow> e
      | None \<Rightarrow> ''jpg'')"

definition calculateSavings :: "nat \<Rightarrow> nat \<Rightarrow> int" where
  \<comment> \<open>byte sizes are integers below \<open>2^53\<close>: they and their difference are exact as doubles;
      the division and the multiplication round.\<close>
  "calculateSavings originalSize newSize =
     (if originalSize = 0 then 0
      else let savings =
                 to_double (to_double ((of_nat originalSize - of_nat newSize) / of_nat originalSize)
                            * 100)
           in max 0 (js_round savings))"

section \<open>formatConverter.js and downloadManager.js: output names\<close>

definition baseName_of :: "string \<Rightarrow> string" where
  \<comment> \<open>the two lines \<open>dotIndex\<close>, \<open>baseName\<close> shared by both name builders.\<close>
  "baseName_of originalName =
     (let dotIndex = lastIndexOf originalName CHR ''.''
      in if dotIndex \<noteq> - 1 then slice0 originalName dotIndex else originalName)"

definition generateOutputFilename :: "string \<Rightarrow> string \<Rightarrow> string" where
  "generateOutputFilename originalName format =
     (let baseName = baseName_of originalName;
          newExt = getExtensionFromMime (getMimeType format)
      in baseName @ ''_optimized.'' @ newExt)"

record blob =
  blob_type :: string
  blob_bytes :: "nat list"

definition blob_size :: "blob \<Rightarrow> nat" where
  "blob_size b = length (blob_bytes b)"

record result_object =
  res_blob :: blob
  res_originalName :: string
  res_originalSize :: nat
  res_newName :: string
  res_newSize :: nat
  res_format :: string
  res_savings :: int
  res_thumbnail :: string

definition createResultObject :: "blob \<Rightarrow> string \<Rightarrow> nat \<Rightarrow> string \<Rightarrow> string \<Rightarrow> result_object" where
  "createResultObject b originalName originalSize format thumbnail =
     (let newSize = blob_size b;
          savings = (if originalSize > 0
                     then js_round
                            (to_double
                               (to_double ((of_nat originalSize - of_nat newSize) / of_nat originalSize)
                                * 100))
                     else 0);
          baseName = baseName_of originalName;
          ext = (if format = ''jpeg'' then ''jpg'' else format);
          newName = baseName @ ''_optimized.'' @ ext
      in \<lparr> res_blob = b, res_originalName = originalName, res_originalSize = originalSize,
           res_newName = newName, res_newSize = newSize, res_format = format,
           res_savings = max 0 savings, res_thumbnail = thumbnail \<rparr>)"

definition strip_last_extension :: "string \<Rightarrow> string" where
  \<comment> \<open>the specification's base name: the name up to its last dot, the whole name without one.\<close>
  "strip_last_extension name =
     (if CHR ''.'' \<in> set name then rev (tl (dropWhile (\<lambda>c. c \<noteq> CHR ''.'') (rev name))) else name)"

definition spec_extension :: "string \<Rightarrow> string" where
  \<comment> \<open>the specification's extension: \<open>jpg\<close> for \<open>jpeg\<close>, else the format name verbatim.\<close>
  "spec_extension format = (if format = ''jpeg'' then ''jpg'' else format)"

section \<open>imageProcessor.js: orientation and target dimensions\<close>

record transform =
  tr_rotate :: nat
  tr_flip :: bool

definition ORIENTATION_TRANSFORMS :: "int \<Rightarrow> transform option" where
  "ORIENTATION_TRANSFORMS =
     map_of [(1, \<lparr> tr_rotate = 0, tr_flip = False \<rparr>),
             (2, \<lparr> tr_rotate = 0, tr_flip = True \<rparr>),
             (3, \<lparr> tr_rotate = 180, tr_flip = False \<rparr>),
             (4, \<lparr> tr_rotate = 180, tr_flip = True \<rparr>),
             (5, \<lparr> tr_rotate = 90, tr_flip = True \<rparr>),
             (6, \<lparr> tr_rotate = 90, tr_flip = False \<rparr>),
             (7, \<lparr> tr_rotate = 270, tr_flip = True \<rparr>),
             (8, \<lparr> tr_rotate = 270, tr_flip = False \<rparr>)]"

definition transform_for :: "int \<Rightarrow> transform" where
  \<comment> \<open>\<open>ORIENTATION_TRANSFORMS[orientation] || ORIENTATION_TRANSFORMS[1]\<close>\<close>
  "transform_for orientation =
     (case ORIENTATION_TRANSFORMS orientation of
        Some t \<Rightarrow> t
      | None \<Rightarrow> \<lparr> tr_rotate = 0, tr_flip = False \<rparr>)"

datatype exifr_outcome =
    ImportFails \<comment> \<open>\<open>import('exifr')\<close> rejects\<close>
  | OrientationThrows \<comment> \<open>\<open>exifr.orientation(file)\<close> rejects: corrupt or unreadable segment\<close>
  | OrientationIs "int option" \<comment> \<open>the tag's value, \<open>None\<close> for \<open>undefined\<close> (no tag)\<close>

definition getExifOrientation :: "(js_file \<Rightarrow> exifr_outcome) \<Rightarrow> js_file \<Rightarrow> int" where
  "getExifOrientation exifr f =
     (if \<not> str_includes (file_type f) ''jpeg'' \<and> \<not> str_includes (file_type f) ''jpg'' then 1
      else case exifr f of
             ImportFails \<Rightarrow> 1
           | OrientationThrows \<Rightarrow> 1
           | OrientationIs orientation \<Rightarrow>
               (case orientation of None \<Rightarrow> 1 | Some n \<Rightarrow> if n = 0 then 1 else n))"

record dimensions =
  width :: number
  height :: number

definition MAX_DIMENSION :: number where
  "MAX_DIMENSION = 16384"

definition calculateDimensions ::
  "number \<Rightarrow> number \<Rightarrow> number option \<Rightarrow> number option \<Rightarrow> string \<Rightarrow> bool \<Rightarrow> dimensions" where
  \<comment> \<open>\<open>originalWidth\<close>, \<open>originalHeight\<close> are the positive \<open>naturalWidth\<close>, \<open>naturalHeight\<close> of a
      decoded image, so no quotient below divides by zero.\<close>
  "calculateDimensions originalWidth originalHeight targetWidth targetHeight unit maintainAspectRatio =
     (let (newWidth, newHeight) =
            (if unit = ''%''
             then (Some (of_int (js_round (originalWidth * (to_number targetWidth / 100)))),
                   Some (of_int (js_round (originalHeight * (to_number targetHeight / 100)))))
             else (targetWidth, targetHeight));
          (newWidth, newHeight) =
            (if maintainAspectRatio then
               (let aspectRatio = originalWidth / originalHeight in
                if truthy newWidth \<and> \<not> truthy newHeight then
                  (newWidth, Some (of_int (js_round (to_number newWidth / aspectRatio))))
                else if truthy newHeight \<and> \<not> truthy newWidth then
                  (Some (of_int (js_round (to_number newHeight * aspectRatio))), newHeight)
                else if truthy newWidth \<and> truthy newHeight then
                  (let widthRatio = to_number newWidth / originalWidth;
                       heightRatio = to_number newHeight / originalHeight;
                       scale = min widthRatio heightRatio
                   in (Some (of_int (js_round (originalWidth * scale))),
                       Some (of_int (js_round (originalHeight * scale)))))
                else (newWidth, newHeight))
             else (newWidth, newHeight));
          newWidth = max 1 (or_else newWidth originalWidth);
          newHeight = max 1 (or_else newHeight originalHeight)
      in if newWidth > MAX_DIMENSION \<or> newHeight > MAX_DIMENSION then
           (let scale = MAX_DIMENSION / max newWidth newHeight
            in \<lparr> width = of_int (js_round (newWidth * scale)),
                 height = of_int (js_round (newHeight * scale)) \<rparr>)
         else \<lparr> width = newWidth, height = newHeight \<rparr>)"

section \<open>smartCompression.js: content analysis\<close>

text \<open>
  \<open>getImageData\<close> returns the raster as a flat array of \<open>4 * width * height\<close> bytes; entries
  \<open>4k .. 4k+3\<close> are the red, green, blue and alpha channel of pixel \<open>k\<close>. The model keeps one
  entry per pixel, so that the source's index \<open>i\<close> is \<open>4 * k\<close> and its stride \<open>40\<close> is \<open>10\<close> pixels.
  The key of the colour set, the string \<open>r,g,b\<close> of the three quantised channels, is kept
  as the triple it prints.
\<close>

record pixel =
  px_r :: nat
  px_g :: nat
  px_b :: nat
  px_a :: nat

record analysis_state =
  as_hasTransparency :: bool
  as_colorSet :: "(nat \<times> nat \<times> nat) set"
  as_totalVariance :: int
  as_pixelCount :: nat

definition analyze_step :: "pixel list \<Rightarrow> nat \<Rightarrow> analysis_state \<Rightarrow> analysis_state" where
  \<comment> \<open>the body of the sampling loop at pixel \<open>k\<close> (\<open>i = 4 * k\<close>).\<close>
  "analyze_step data k st =
     (let r = px_r (data ! k); g = px_g (data ! k); b = px_b (data ! k); a = px_a (data ! k);
          hasTransparency = (if a < 255 then True else as_hasTransparency st);
          quantizedColor = (r div 16, g div 16, b div 16);
          colorSet = insert quantizedColor (as_colorSet st);
          totalVariance =
            (if k > 0 then
               (let prevR = px_r (data ! (k - 10)); prevG = px_g (data ! (k - 10));
                    prevB = px_b (data ! (k - 10));
                    diff = \<bar>int r - int prevR\<bar> + \<bar>int g - int prevG\<bar> + \<bar>int b - int prevB\<bar>
                in as_totalVariance st + diff)
             else as_totalVariance st)
      in \<lparr> as_hasTransparency = hasTransparency, as_colorSet = colorSet,
           as_totalVariance = totalVariance, as_pixelCount = as_pixelCount st + 1 \<rparr>)"

function analyze_loop :: "pixel list \<Rightarrow> nat \<Rightarrow> analysis_state \<Rightarrow> analysis_state" where
  "analyze_loop data k st =
     (if k < length data then analyze_loop data (k + 10) (analyze_step data k st) else st)"
  by pat_completeness auto
termination
  by (relation "measure (\<lambda>(data, k, st). length data - k)") auto

declare analyze_loop.simps [simp del]

record analysis =
  hasTransparency :: bool
  colorCount :: nat
  avgVariance :: number
  isPhoto :: bool
  isGraphic :: bool
  an_width :: nat
  an_height :: nat
  totalPixels :: nat

definition analyzeImage :: "nat \<Rightarrow> nat \<Rightarrow> pixel list \<Rightarrow> analysis" where
  \<comment> \<open>\<open>canvas.width\<close>, \<open>canvas.height\<close> and the pixels \<open>getImageData\<close> reads from the canvas.\<close>
  "analyzeImage canvas_width canvas_height data =
     (let st = analyze_loop data 0
                 \<lparr> as_hasTransparency = False, as_colorSet = {}, as_totalVariance = 0,
                   as_pixelCount = 0 \<rparr>;
          colorCount = card (as_colorSet st);
          avgVariance = of_int (as_totalVariance st) / of_nat (max 1 (as_pixelCount st))
      in \<lparr> hasTransparency = as_hasTransparency st, colorCount = colorCount,
           avgVariance = avgVariance,
           isPhoto = (avgVariance > 30 \<and> colorCount > 1000),
           isGraphic = (avgVariance < 20 \<or> colorCount < 500),
           an_width = canvas_width, an_height = canvas_height,
           totalPixels = canvas_width * canvas_height \<rparr>)"

text \<open>A raster that is neither a photo nor a graphic for the classifier: \<open>100 \<times> 50\<close> opaque
  pixels whose ten-pixel samples run through 500 different colour buckets.\<close>

definition sample_pixel :: "nat \<Rightarrow> pixel" where
  "sample_pixel j =
     \<lparr> px_r = 240 * (j mod 2), px_g = 16 * ((j div 2) mod 16), px_b = 16 * (j div 32), px_a = 255 \<rparr>"

definition sample_raster :: "pixel list" where
  "sample_raster = map (\<lambda>k. sample_pixel (k div 10)) [0..<5000]"

definition sample_inv :: "nat \<Rightarrow> analysis_state \<Rightarrow> bool" where
  \<comment> \<open>the state of the sampling loop on \<open>sample_raster\<close> before its \<open>j\<close>-th sample.\<close>
  "sample_inv j st \<longleftrightarrow>
     j \<le> 500
     \<and> as_pixelCount st = j
     \<and> as_colorSet st = (\<lambda>i. (15 * (i mod 2), (i div 2) mod 16, i div 32)) ` {..<j}
     \<and> 240 * (int j - 1) \<le> as_totalVariance st
     \<and> 0 \<le> as_totalVariance st"

section \<open>smartCompression.js: quality search\<close>

text \<open>
  \<open>canvas.toBlob\<close> is the environment's encoder: for a canvas, a MIME type and a quality it
  hands the callback a blob or \<open>null\<close> (\<open>None\<close>). Every function that encodes returns, next
  to its outcome, the number of \<open>toBlob\<close> calls it has made.
\<close>

type_synonym 'c encoder = "'c \<Rightarrow> string \<Rightarrow> number \<Rightarrow> blob option"

definition canvasToBlob_sc :: "'c encoder \<Rightarrow> 'c \<Rightarrow> string \<Rightarrow> number \<Rightarrow> js_error + blob" where
  \<comment> \<open>the \<open>canvasToBlob\<close> helper of smartCompression.js.\<close>
  "canvasToBlob_sc toBlob canvas mimeType quality =
     (case toBlob canvas mimeType quality of
        Some b \<Rightarrow> Inr b
      | None \<Rightarrow> Inl (Error ''Failed to create blob''))"

record search_options =
  minQuality :: int
  maxQuality :: int
  tolerance :: number
  maxIterations :: int

definition default_options :: search_options where
  "default_options = \<lparr> minQuality = 10, maxQuality = 95, tolerance = 1 / 10, maxIterations = 10 \<rparr>"

record search_result =
  sr_blob :: "blob option"
  sr_quality :: int
  sr_iterations :: int

function search_loop ::
  "'c encoder \<Rightarrow> 'c \<Rightarrow> string \<Rightarrow> number \<Rightarrow> number \<Rightarrow> int
     \<Rightarrow> int \<Rightarrow> int \<Rightarrow> blob option \<Rightarrow> int \<Rightarrow> int \<Rightarrow> nat \<Rightarrow> nat \<times> (js_error + search_result)" where
  "search_loop toBlob canvas mimeType targetBytes tol maxIter low high bestBlob bestQuality iterations calls =
     (if low \<le> high \<and> iterations < maxIter then
        (let iterations = iterations + 1;
             mid = js_round (of_int (low + high) / 2);
             quality = of_int mid / 100
         in case canvasToBlob_sc toBlob canvas mimeType quality of
              Inl e \<Rightarrow> (calls + 1, Inl e)
            | Inr b \<Rightarrow>
                (let size = of_nat (blob_size b);
                     lowerBound = targetBytes * (1 - tol);
                     upperBound = targetBytes * (1 + tol)
                 in if size \<ge> lowerBound \<and> size \<le> upperBound then
                      (calls + 1, Inr \<lparr> sr_blob = Some b, sr_quality = mid, sr_iterations = iterations \<rparr>)
                    else if size > targetBytes then
                      search_loop toBlob canvas mimeType targetBytes tol maxIter
                        low (mid - 1) (Some b) mid iterations (calls + 1)
                    else
                      search_loop toBlob canvas mimeType targetBytes tol maxIter
                        (mid + 1) high (Some b) mid iterations (calls + 1)))
      else
        (case bestBlob of
           None \<Rightarrow>
             (case canvasToBlob_sc toBlob canvas mimeType (of_int bestQuality / 100) of
                Inl e \<Rightarrow> (calls + 1, Inl e)
              | Inr b \<Rightarrow>
                  (calls + 1,
                   Inr \<lparr> sr_blob = Some b, sr_quality = bestQuality, sr_iterations = iterations \<rparr>))
         | Some b \<Rightarrow>
             (calls, Inr \<lparr> sr_blob = Some b, sr_quality = bestQuality, sr_iterations = iterations \<rparr>)))"
  by pat_completeness auto
termination
  by (relation "measure (\<lambda>(toBlob, canvas, mimeType, targetBytes, tol, maxIter, low, high, bestBlob,
        bestQuality, iterations, calls). nat (maxIter - iterations))") auto

declare search_loop.simps [simp del]

definition findOptimalQuality ::
  "'c encoder \<Rightarrow> 'c \<Rightarrow> string \<Rightarrow> number \<Rightarrow> search_options \<Rightarrow> nat \<times> (js_error + search_result)" where
  "findOptimalQuality toBlob canvas format targetSizeKB options =
     (let targetBytes = targetSizeKB * 1024;
          mimeType = ''image/'' @ (if format = ''jpg'' then ''jpeg'' else format)
      in if format = ''png'' then
           (case canvasToBlob_sc toBlob canvas mimeType 1 of
              Inl e \<Rightarrow> (1, Inl e)
            | Inr b \<Rightarrow> (1, Inr \<lparr> sr_blob = Some b, sr_quality = 100, sr_iterations = 1 \<rparr>))
         else
           search_loop toBlob canvas mimeType targetBytes (tolerance options) (maxIterations options)
             (minQuality options) (maxQuality options) None (maxQuality options) 0 0)"

text \<open>Two encoders to run the search on: one whose every output is an empty blob (never
  inside a tolerance band around a positive target), one that yields no blob, as
  \<open>toBlob\<close> does on a canvas without pixels.\<close>

definition empty_encoder :: "unit encoder" where
  "empty_encoder canvas mimeType quality = Some \<lparr> blob_type = mimeType, blob_bytes = [] \<rparr>"

definition failing_encoder :: "unit encoder" where
  "failing_encoder canvas mimeType quality = None"

section \<open>The canvas and the browser environment\<close>

text \<open>
  A canvas is its size and the drawing commands issued on its 2D context, in order; what
  \<open>toBlob\<close> encodes is determined by them. Decoding, EXIF extraction, encoding and the
  compression library belong to the environment. Every function that encodes returns,
  next to its outcome, the list of \<open>toBlob\<close> calls it has made: the canvas as it was at
  the call, the MIME type and the quality.
\<close>

record image =
  naturalWidth :: nat
  naturalHeight :: nat
  img_pixels :: "pixel list"

datatype canvas_op =
    Translate number number
  | Rotate nat \<comment> \<open>\<open>ctx.rotate((rotate * Math.PI) / 180)\<close>, kept in degrees\<close>
  | Scale number number
  | SetTransformIdentity \<comment> \<open>\<open>ctx.setTransform(1, 0, 0, 1, 0, 0)\<close>\<close>
  | FillRect string number number number number \<comment> \<open>the \<open>fillStyle\<close> and the rectangle\<close>
  | DrawImage image number number "(number \<times> number) option"

record canvas =
  cv_width :: number
  cv_height :: number
  cv_ops :: "canvas_op list"

type_synonym encode_call = "canvas \<times> string \<times> number"

record compression_options =
  maxSizeMB :: nat
  maxWidthOrHeight :: number
  useWebWorker :: bool
  initialQuality :: number
  alwaysKeepResolution :: bool

record env =
  loadImage_env :: "js_file \<Rightarrow> image option" \<comment> \<open>\<open>None\<close>: \<open>img.onerror\<close> fires\<close>
  createImageFromBlob_env :: "blob \<Rightarrow> image option"
  exifr_env :: "js_file \<Rightarrow> exifr_outcome"
  getContext2d :: bool \<comment> \<open>\<open>canvas.getContext('2d')\<close> is not null\<close>
  toBlob_env :: "canvas encoder"
  libraryLoads :: bool \<comment> \<open>\<open>import('browser-image-compression')\<close> resolves\<close>
  hasWorker :: bool \<comment> \<open>\<open>typeof Worker !== 'undefined'\<close>\<close>
  imageCompression_env :: "blob \<Rightarrow> compression_options \<Rightarrow> string + blob"
    \<comment> \<open>the library call; \<open>Inl\<close> carries the message of the error it throws\<close>

record settings =
  s_format :: string
  s_quality :: number
  s_resizeEnabled :: bool
  s_width :: "number option"
  s_height :: "number option"
  s_unit :: string
  s_maintainAspectRatio :: bool
  s_keepOriginalDimensions :: bool

definition loadImage :: "env \<Rightarrow> js_file \<Rightarrow> js_error + image" where
  "loadImage e f =
     (case loadImage_env e f of
        Some img \<Rightarrow> Inr img
      | None \<Rightarrow> Inl (mkImageOptimizerError ''Failed to load image'' FILE_CORRUPTED))"

definition applyExifTransform :: "number \<Rightarrow> number \<Rightarrow> transform \<Rightarrow> canvas_op list" where
  "applyExifTransform w h t =
     [Translate (w / 2) (h / 2)]
     @ (if tr_rotate t \<noteq> 0 then [Rotate (tr_rotate t)] else [])
     @ (if tr_flip t then [Scale (- 1) 1] else [])
     @ (if tr_rotate t = 90 \<or> tr_rotate t = 270
        then [Translate (- h / 2) (- w / 2)]
        else [Translate (- w / 2) (- h / 2)])"

record processed_data =
  pd_canvas :: canvas
  pd_width :: number
  pd_height :: number
  pd_originalWidth :: number
  pd_originalHeight :: number

definition rethrow :: "string \<Rightarrow> ErrorCode \<Rightarrow> js_error \<Rightarrow> js_error" where
  \<comment> \<open>the \<open>catch\<close> blocks: an \<open>ImageOptimizerError\<close> is thrown on, anything else is wrapped.\<close>
  "rethrow what c error =
     (if instanceof_ImageOptimizerError error then error
      else mkImageOptimizerError (what @ message error) c)"

definition processImage :: "env \<Rightarrow> js_file \<Rightarrow> settings \<Rightarrow> js_error + processed_data" where
  "processImage e f st =
     (case
        (case loadImage e f of
           Inl error \<Rightarrow> Inl error
         | Inr img \<Rightarrow>
            (let originalWidth = of_nat (naturalWidth img);
                 originalHeight = of_nat (naturalHeight img);
                 orientation = getExifOrientation (exifr_env e) f;
                 t = transform_for orientation;
                 swap = (tr_rotate t = 90 \<or> tr_rotate t = 270);
                 rotatedWidth = (if swap then originalHeight else originalWidth);
                 rotatedHeight = (if swap then originalWidth else originalHeight);
                 dims = (if s_resizeEnabled st \<and> \<not> s_keepOriginalDimensions st
                         then calculateDimensions rotatedWidth rotatedHeight (s_width st) (s_height st)
                                (s_unit st) (s_maintainAspectRatio st)
                         else \<lparr> width = rotatedWidth, height = rotatedHeight \<rparr>);
                 targetWidth = width dims;
                 targetHeight = height dims
             in if \<not> getContext2d e then
                  Inl (mkImageOptimizerError ''Canvas context unavailable'' CANVAS_UNSUPPORTED)
                else
                  (let drawWidth = (if swap then targetHeight else targetWidth);
                       drawHeight = (if swap then targetWidth else targetHeight);
                       ops = applyExifTransform targetWidth targetHeight t
                             @ [DrawImage img 0 0 (Some (drawWidth, drawHeight)), SetTransformIdentity]
                   in Inr \<lparr> pd_canvas = \<lparr> cv_width = targetWidth, cv_height = targetHeight, cv_ops = ops \<rparr>,
                            pd_width = targetWidth, pd_height = targetHeight,
                            pd_originalWidth = rotatedWidth, pd_originalHeight = rotatedHeight \<rparr>)))
      of
        Inl error \<Rightarrow> Inl (rethrow ''Image processing failed: '' CANVAS_MEMORY error)
      | Inr r \<Rightarrow> Inr r)"

definition normalizeQuality :: "number \<Rightarrow> number" where
  \<comment> \<open>\<open>Math.max(0.1, Math.min(1, quality / 100))\<close>\<close>
  "normalizeQuality quality = max (1 / 10) (min 1 (quality / 100))"

definition canvasToBlob_app :: "env \<Rightarrow> canvas \<Rightarrow> string \<Rightarrow> number \<Rightarrow> encode_call list \<times> (js_error + blob)" where
  \<comment> \<open>the \<open>canvasToBlob\<close> of app.js.\<close>
  "canvasToBlob_app e cv mimeType quality =
     (let normalizedQuality = normalizeQuality quality
      in ([(cv, mimeType, normalizedQuality)],
          case toBlob_env e cv mimeType normalizedQuality of
            Some b \<Rightarrow> Inr b
          | None \<Rightarrow> Inl (Error ''Failed to create blob from canvas'')))"

section \<open>imageCompressor.js and formatConverter.js\<close>

definition compressImage :: "env \<Rightarrow> blob \<Rightarrow> number \<Rightarrow> number \<Rightarrow> number \<Rightarrow> js_error + blob" where
  \<comment> \<open>the first attempt wraps the blob in a \<open>File\<close> of the same bytes and type.\<close>
  "compressImage e f quality maxWidth maxHeight =
     (if \<not> libraryLoads e then
        Inl (mkImageOptimizerError ''Failed to load compression library'' LIBRARY_LOAD_FAILED)
      else
        (let normalizedQuality = normalizeQuality quality;
             maxSizeMB = (if quality > 70 then 10 else if quality > 40 then 5 else 2);
             compressionOptions =
               \<lparr> maxSizeMB = maxSizeMB,
                 maxWidthOrHeight = (if maxWidth \<noteq> 0 then maxWidth
                                     else if maxHeight \<noteq> 0 then maxHeight else 4096),
                 useWebWorker = hasWorker e,
                 initialQuality = normalizedQuality,
                 alwaysKeepResolution = True \<rparr>
         in case imageCompression_env e f compressionOptions of
              Inr compressedFile \<Rightarrow> Inr compressedFile
            | Inl error \<Rightarrow>
                (case imageCompression_env e f (compressionOptions \<lparr> useWebWorker := False \<rparr>) of
                   Inr compressedFile \<Rightarrow> Inr compressedFile
                 | Inl fallbackError \<Rightarrow>
                     Inl (mkImageOptimizerError (''Compression failed: '' @ fallbackError)
                            COMPRESSION_FAILED))))"

definition createImageFromBlob :: "env \<Rightarrow> blob \<Rightarrow> js_error + image" where
  "createImageFromBlob e b =
     (case createImageFromBlob_env e b of
        Some img \<Rightarrow> Inr img
      | None \<Rightarrow> Inl (mkImageOptimizerError ''Failed to load image for conversion'' FILE_CORRUPTED))"

definition convertFormat :: "env \<Rightarrow> blob \<Rightarrow> string \<Rightarrow> number \<Rightarrow> encode_call list \<times> (js_error + blob)" where
  "convertFormat e b targetFormat quality =
     (let targetMime = getMimeType targetFormat
      in if blob_type b = targetMime then ([], Inr b)
         else
           (case createImageFromBlob e b of
              Inl error \<Rightarrow> ([], Inl (rethrow ''Format conversion failed: '' CONVERSION_FAILED error))
            | Inr img \<Rightarrow>
                if \<not> getContext2d e then
                  ([], Inl (rethrow ''Format conversion failed: '' CONVERSION_FAILED
                              (mkImageOptimizerError ''Canvas not supported'' CANVAS_UNSUPPORTED)))
                else
                  (let w = of_nat (naturalWidth img); \<comment> \<open>\<open>img.width\<close> of an image outside the document\<close>
                       h = of_nat (naturalHeight img);
                       fill = (if targetFormat = ''jpeg'' \<or> targetFormat = ''jpg''
                               then [FillRect ''#FFFFFF'' 0 0 w h] else []);
                       cv = \<lparr> cv_width = w, cv_height = h,
                              cv_ops = fill @ [DrawImage img 0 0 None] \<rparr>;
                       normalizedQuality = normalizeQuality quality
                   in ([(cv, targetMime, normalizedQuality)],
                       case toBlob_env e cv targetMime normalizedQuality of
                         Some convertedBlob \<Rightarrow> Inr convertedBlob
                       | None \<Rightarrow>
                           Inl (mkImageOptimizerError (''Failed to convert to '' @ targetFormat)
                                  CONVERSION_FAILED)))))"

section \<open>app.js: the pipeline and the batch loop\<close>

datatype file_status = StatusPending | StatusProcessing | StatusDone | StatusError

record fileData =
  fd_id :: string
  fd_file :: js_file
  fd_thumbnail :: string
  fd_originalSize :: nat
  fd_originalName :: string
  fd_originalType :: string
  fd_status :: file_status
  fd_result :: "result_object option"
  fd_error :: "string option"

definition processSingleFile ::
  "env \<Rightarrow> fileData \<Rightarrow> settings \<Rightarrow> encode_call list \<times> (js_error + result_object)" where
  "processSingleFile e fd st =
     (case processImage e (fd_file fd)
             (st \<lparr> s_resizeEnabled := s_resizeEnabled st \<and> \<not> s_keepOriginalDimensions st \<rparr>) of
        Inl error \<Rightarrow> ([], Inl error)
      | Inr processedData \<Rightarrow>
          (let targetFormat = (if s_format st = [] then ''webp'' else s_format st);
               targetMime = getMimeType targetFormat;
               (log1, encoded) = canvasToBlob_app e (pd_canvas processedData) targetMime (s_quality st)
           in case encoded of
                Inl error \<Rightarrow> (log1, Inl error)
              | Inr canvasBlob \<Rightarrow>
                  (let b = (case compressImage e canvasBlob (s_quality st) (pd_width processedData)
                                   (pd_height processedData) of
                              Inr compressedBlob \<Rightarrow>
                                if blob_size compressedBlob < blob_size canvasBlob
                                then compressedBlob else canvasBlob
                            | Inl compressionError \<Rightarrow> canvasBlob)
                   in if blob_type b \<noteq> targetMime then
                        (let (log2, converted) = convertFormat e b targetFormat (s_quality st)
                         in case converted of
                              Inl error \<Rightarrow> (log1 @ log2, Inl error)
                            | Inr b' \<Rightarrow>
                                (log1 @ log2,
                                 Inr (createResultObject b' (fd_originalName fd) (fd_originalSize fd)
                                        targetFormat (fd_thumbnail fd))))
                      else
                        (log1,
                         Inr (createResultObject b (fd_originalName fd) (fd_originalSize fd)
                                targetFormat (fd_thumbnail fd))))))"

record processing_state =
  isProcessing :: bool
  currentIndex :: nat
  totalFiles :: nat
  progress :: nat

record app_state =
  currentScreen :: string
  st_files :: "fileData list"
  st_settings :: settings
  st_processing :: processing_state
  processedCount :: nat
  totalSaved :: nat
  processedResults :: "result_object list" \<comment> \<open>the module variable of downloadManager.js\<close>

definition updateFile :: "string \<Rightarrow> (fileData \<Rightarrow> fileData) \<Rightarrow> app_state \<Rightarrow> app_state" where
  \<comment> \<open>\<open>updates\<close> is the merge \<open>{ ...f, ...updates }\<close> as a function of \<open>f\<close>.\<close>
  "updateFile ident updates s =
     s \<lparr> st_files := map (\<lambda>f. if fd_id f = ident then updates f else f) (st_files s) \<rparr>"

fun process_loop ::
  "env \<Rightarrow> settings \<Rightarrow> fileData list \<Rightarrow> app_state \<Rightarrow> result_object list \<Rightarrow> nat \<Rightarrow> nat
     \<Rightarrow> app_state \<times> result_object list \<times> nat \<times> nat" where
  "process_loop e st [] s results successCount errorCount = (s, results, successCount, errorCount)"
| "process_loop e st (fileData # rest) s results successCount errorCount =
     (let s1 = updateFile (fd_id fileData) (\<lambda>f. f \<lparr> fd_status := StatusProcessing \<rparr>) s
      in case snd (processSingleFile e fileData st) of
           Inr result \<Rightarrow>
             (let s2 = updateFile (fd_id fileData)
                         (\<lambda>f. f \<lparr> fd_status := StatusDone, fd_result := Some result \<rparr>) s1;
                  s3 = s2 \<lparr> processedCount := processedCount s2 + 1 \<rparr>;
                  s4 = (if res_newSize result < fd_originalSize fileData
                        then s3 \<lparr> totalSaved := totalSaved s3
                                     + (fd_originalSize fileData - res_newSize result) \<rparr>
                        else s3)
              in process_loop e st rest s4 (results @ [result]) (successCount + 1) errorCount)
         | Inl error \<Rightarrow>
             (let s2 = updateFile (fd_id fileData)
                         (\<lambda>f. f \<lparr> fd_status := StatusError, fd_error := Some (message error) \<rparr>) s1
              in process_loop e st rest s2 results successCount (errorCount + 1)))"

definition processAllFiles :: "env \<Rightarrow> app_state \<Rightarrow> app_state \<times> nat \<times> nat" where
  \<comment> \<open>the loop runs over the array read at the start; the overlay, the progress bar, the
      toasts and the pauses between files are left out. The numbers returned are
      \<open>successCount\<close> and \<open>errorCount\<close>.\<close>
  "processAllFiles e s =
     (let files = st_files s; st = st_settings s
      in if files = [] then (s, 0, 0)
         else
           (let s0 = s \<lparr> st_processing := \<lparr> isProcessing = True, currentIndex = 0,
                                             totalFiles = length files, progress = 0 \<rparr> \<rparr>;
                (s1, results, successCount, errorCount) = process_loop e st files s0 [] 0 0;
                s2 = s1 \<lparr> st_processing := (st_processing s1) \<lparr> isProcessing := False, progress := 100 \<rparr> \<rparr>;
                s3 = s2 \<lparr> processedResults := results \<rparr>;
                s4 = (if successCount > 0 then s3 \<lparr> currentScreen := ''download'' \<rparr> else s3)
            in (s4, successCount, errorCount)))"

definition white_background :: "canvas \<Rightarrow> bool" where
  \<comment> \<open>the specification's compositing: the first command that paints the canvas fills
      all of it with opaque white.\<close>
  "white_background cv =
     (case filter (\<lambda>c. case c of FillRect _ _ _ _ _ \<Rightarrow> True | DrawImage _ _ _ _ \<Rightarrow> True | _ \<Rightarrow> False)
             (cv_ops cv) of
        FillRect style x y w h # _ \<Rightarrow>
          style = ''#FFFFFF'' \<and> x = 0 \<and> y = 0 \<and> w = cv_width cv \<and> h = cv_height cv
      | _ \<Rightarrow> False)"

definition has_transparent_pixel :: "image \<Rightarrow> bool" where
  "has_transparent_pixel img = list_ex (\<lambda>p. px_a p < 255) (img_pixels img)"

text \<open>A concrete environment and batch to run the pipeline on: every file decodes to a
  one-pixel image that is fully transparent, except \<open>broken.png\<close>, which does not decode;
  the encoder returns three bytes of the requested type; the compression library does
  not load.\<close>

definition transparent_image :: image where
  "transparent_image =
     \<lparr> naturalWidth = 1, naturalHeight = 1,
       img_pixels = [\<lparr> px_r = 255, px_g = 0, px_b = 0, px_a = 0 \<rparr>] \<rparr>"

definition demo_env :: env where
  "demo_env =
     \<lparr> loadImage_env = (\<lambda>f. if file_name f = ''broken.png'' then None else Some transparent_image),
       createImageFromBlob_env = (\<lambda>b. Some transparent_image),
       exifr_env = (\<lambda>f. ImportFails),
       getContext2d = True,
       toBlob_env = (\<lambda>cv mimeType quality. Some \<lparr> blob_type = mimeType, blob_bytes = [0, 0, 0] \<rparr>),
       libraryLoads = False,
       hasWorker = True,
       imageCompression_env = (\<lambda>b opts. Inl ''unavailable'') \<rparr>"

definition jpeg_settings :: settings where
  "jpeg_settings =
     \<lparr> s_format = ''jpeg'', s_quality = 80, s_resizeEnabled = False, s_width = None,
       s_height = None, s_unit = ''px'', s_maintainAspectRatio = True,
       s_keepOriginalDimensions = True \<rparr>"

definition png_file :: "string \<Rightarrow> string \<Rightarrow> fileData" where
  "png_file ident name =
     \<lparr> fd_id = ident,
       fd_file = \<lparr> file_name = name, file_size = 2048, file_type = ''image/png'' \<rparr>,
       fd_thumbnail = '''', fd_originalSize = 2048, fd_originalName = name,
       fd_originalType = ''image/png'', fd_status = StatusPending, fd_result = None,
       fd_error = None \<rparr>"

definition demo_state :: app_state where
  "demo_state =
     \<lparr> currentScreen = ''editor'',
       st_files = [png_file ''1'' ''a.png'', png_file ''2'' ''b.png'', png_file ''3'' ''broken.png'',
                   png_file ''4'' ''d.png'', png_file ''5'' ''e.png''],
       st_settings = jpeg_settings,
       st_processing = \<lparr> isProcessing = False, currentIndex = 0, totalFiles = 0, progress = 0 \<rparr>,
       processedCount = 0, totalSaved = 0, processedResults = [] \<rparr>"

text \<open>What the batch loop leaves in a file's entry, and the results it collects.\<close>

definition settle :: "env \<Rightarrow> settings \<Rightarrow> fileData \<Rightarrow> fileData \<Rightarrow> fileData" where
  \<comment> \<open>the entry \<open>f\<close> once the pipeline has run on the queued file \<open>g\<close>.\<close>
  "settle e st g f =
     (case snd (processSingleFile e g st) of
        Inr result \<Rightarrow> f \<lparr> fd_status := StatusDone, fd_result := Some result \<rparr>
      | Inl error \<Rightarrow> f \<lparr> fd_status := StatusError, fd_error := Some (message error) \<rparr>)"

definition successes :: "env \<Rightarrow> settings \<Rightarrow> fileData list \<Rightarrow> result_object list" where
  "successes e st fs =
     List.map_filter (\<lambda>g. case snd (processSingleFile e g st) of
                             Inr result \<Rightarrow> Some result
                           | Inl error \<Rightarrow> None) fs"

section \<open>Verification: file validation, savings and output names\<close>

lemma js_round_mono: "x \<le> y \<Longrightarrow> js_round x \<le> js_round y"
  by (simp add: js_round_def floor_mono)

lemma js_round_nonpos: "x \<le> 0 \<Longrightarrow> js_round x \<le> 0"
  unfolding js_round_def by (simp add: floor_le_iff)

lemma js_round_of_int: "js_round (of_int k) = k"
  unfolding js_round_def by linarith

text \<open>
  C10. \<open>validateFile\<close> returns \<open>true\<close> exactly for a present file of at most
  \<open>10 * 1024 * 1024\<close> bytes whose type is one of the four allowed MIME types. Otherwise it
  throws an \<open>ImageOptimizerError\<close>: with code \<open>INVALID_FILE_TYPE\<close> for a missing file, with
  code \<open>FILE_TOO_LARGE\<close> for an oversize file, and with code \<open>INVALID_FILE_TYPE\<close> for a file
  within the limit whose type is not allowed.
\<close>

theorem validateFile_gate:
  "(validateFile fsz f = Inr True \<longleftrightarrow>
      (\<exists>fl. f = Some fl \<and> file_size fl \<le> 10 * 1024 * 1024
          \<and> file_type fl \<in> {''image/jpeg'', ''image/png'', ''image/webp'', ''image/gif''}))
   \<and> (f = None \<longrightarrow> (\<exists>m. validateFile fsz f = Inl (ImageOptimizerError m INVALID_FILE_TYPE True)))
   \<and> (\<forall>fl. f = Some fl \<and> file_size fl > 10 * 1024 * 1024 \<longrightarrow>
          (\<exists>m. validateFile fsz f = Inl (ImageOptimizerError m FILE_TOO_LARGE True)))
   \<and> (\<forall>fl. f = Some fl \<and> file_size fl \<le> 10 * 1024 * 1024
          \<and> file_type fl \<notin> {''image/jpeg'', ''image/png'', ''image/webp'', ''image/gif''} \<longrightarrow>
          (\<exists>m. validateFile fsz f = Inl (ImageOptimizerError m INVALID_FILE_TYPE True)))"
  by (cases f)
     (auto simp: validateFile_def MAX_FILE_SIZE_def ALLOWED_TYPES_def mkImageOptimizerError_def)

theorem validateFile_gate_witness:
  "validateFile (\<lambda>n. ''11 MB'') None = Inl (ImageOptimizerError ''No file selected'' INVALID_FILE_TYPE True)
   \<and> (\<exists>m. validateFile (\<lambda>n. ''11 MB'')
              (Some \<lparr> file_name = ''big.png'', file_size = 11534336, file_type = ''image/png'' \<rparr>)
            = Inl (ImageOptimizerError m FILE_TOO_LARGE True))
   \<and> (\<exists>m. validateFile (\<lambda>n. ''11 MB'')
              (Some \<lparr> file_name = ''scan.bmp'', file_size = 2048, file_type = ''image/bmp'' \<rparr>)
            = Inl (ImageOptimizerError m INVALID_FILE_TYPE True))
   \<and> validateFile (\<lambda>n. ''11 MB'')
        (Some \<lparr> file_name = ''limit.gif'', file_size = 10485760, file_type = ''image/gif'' \<rparr>) = Inr True"
  using validateFile_gate [of "\<lambda>n. ''11 MB''" None]
    validateFile_gate [of "\<lambda>n. ''11 MB''"
      "Some \<lparr> file_name = ''big.png'', file_size = 11534336, file_type = ''image/png'' \<rparr>"]
    validateFile_gate [of "\<lambda>n. ''11 MB''"
      "Some \<lparr> file_name = ''scan.bmp'', file_size = 2048, file_type = ''image/bmp'' \<rparr>"]
    validateFile_gate [of "\<lambda>n. ''11 MB''"
      "Some \<lparr> file_name = ''limit.gif'', file_size = 10485760, file_type = ''image/gif'' \<rparr>"]
  by (simp add: validateFile_def mkImageOptimizerError_def)

text \<open>The binary64 rounding: its error is at most \<open>|x| / 2^53\<close>, and it keeps the sign.\<close>

lemma round_half_even_error: "\<bar>of_int (round_half_even y) - y\<bar> \<le> (1 / 2 :: rat)"
proof -
  have "of_int \<lfloor>y\<rfloor> \<le> y" "y < of_int \<lfloor>y\<rfloor> + 1" by linarith+
  then show ?thesis
    by (auto simp: round_half_even_def Let_def abs_le_iff)
qed

lemma round_half_even_nonneg: "0 \<le> y \<Longrightarrow> 0 \<le> round_half_even y"
  by (auto simp: round_half_even_def Let_def)

lemma ilog2_lower:
  assumes "0 < x"
  shows "2 powi (ilog2 x) \<le> x"
proof (cases "1 \<le> x")
  case True
  let ?n = "nat \<lfloor>x\<rfloor>"
  let ?k = "floorlog 2 ?n"
  have fl: "1 \<le> \<lfloor>x\<rfloor>" using True by linarith
  then have n: "0 < ?n" by simp
  have k: "0 < ?k" using n by (simp add: floorlog_def)
  have "2 ^ (?k - 1) \<le> ?n" using floorlog_bounds[OF n, of 2] by simp
  then have "(of_nat (2 ^ (?k - 1)) :: rat) \<le> of_nat ?n" by (simp only: of_nat_le_iff)
  then have a: "(2::rat) ^ (?k - 1) \<le> of_nat ?n" by simp
  have "(of_nat ?n :: rat) = of_int \<lfloor>x\<rfloor>" using fl by simp
  then have b: "(of_nat ?n :: rat) \<le> x" by simp
  have "int ?k - 1 = int (?k - 1)" using k by simp
  then have "(2::rat) powi (int ?k - 1) = 2 ^ (?k - 1)" by (simp only: power_int_of_nat)
  moreover have "ilog2 x = int ?k - 1" using True by (simp add: ilog2_def)
  ultimately have "(2::rat) powi (ilog2 x) = 2 ^ (?k - 1)" by simp
  then show ?thesis using a b by linarith
next
  case False
  let ?m = "nat (\<lceil>1 / x\<rceil> - 1)"
  let ?j = "floorlog 2 ?m"
  have y: "1 < 1 / x" using assms False by simp
  then have c: "2 \<le> \<lceil>1 / x\<rceil>" by linarith
  then have m: "0 < ?m" by simp
  have "?m < 2 ^ ?j" using floorlog_bounds[OF m, of 2] by simp
  then have "int ?m < int (2 ^ ?j)" by (simp only: of_nat_less_iff)
  moreover have "0 \<le> \<lceil>1 / x\<rceil> - 1" using c by linarith
  then have "int ?m = \<lceil>1 / x\<rceil> - 1" by (rule nat_0_le)
  moreover have "int (2 ^ ?j) = 2 ^ ?j" by simp
  ultimately have "\<lceil>1 / x\<rceil> - 1 < 2 ^ ?j" by (simp only:)
  then have "\<lceil>1 / x\<rceil> \<le> 2 ^ ?j" by simp
  then have "(of_int \<lceil>1 / x\<rceil> :: rat) \<le> of_int (2 ^ ?j)" by (simp only: of_int_le_iff)
  then have "(of_int \<lceil>1 / x\<rceil> :: rat) \<le> 2 ^ ?j" by simp
  moreover have "1 / x \<le> of_int \<lceil>1 / x\<rceil>" by (rule le_of_int_ceiling)
  ultimately have "1 / x \<le> 2 ^ ?j" by linarith
  then have "1 \<le> 2 ^ ?j * x" using assms by (simp add: divide_le_eq)
  then have "1 / 2 ^ ?j \<le> x" by (simp add: divide_le_eq mult.commute)
  moreover have "(2::rat) powi (- int ?j) = 1 / 2 ^ ?j"
    by (simp add: power_int_minus inverse_eq_divide)
  moreover have "ilog2 x = - int ?j" using False by (simp add: ilog2_def)
  ultimately show ?thesis by simp
qed

lemma to_double_pos_error:
  assumes "0 < x"
  shows "\<bar>to_double_pos x - x\<bar> \<le> x / 2 ^ 53"
proof -
  let ?e = "ilog2 x"
  let ?ulp = "(2::rat) powi (?e - 52)"
  have ulp: "0 < ?ulp" by simp
  have split: "?ulp = 2 powi ?e / 2 ^ 52"
    by (simp add: power_int_diff)
  have "\<bar>of_int (round_half_even (x / ?ulp)) - x / ?ulp\<bar> \<le> 1 / 2"
    by (rule round_half_even_error)
  then have "\<bar>of_int (round_half_even (x / ?ulp)) - x / ?ulp\<bar> * ?ulp \<le> 1 / 2 * ?ulp"
    using ulp by (simp only: mult_le_cancel_right_pos)
  moreover have "\<bar>of_int (round_half_even (x / ?ulp)) - x / ?ulp\<bar> * ?ulp
      = \<bar>of_int (round_half_even (x / ?ulp)) * ?ulp - x\<bar>"
  proof -
    have "\<bar>of_int (round_half_even (x / ?ulp)) - x / ?ulp\<bar> * \<bar>?ulp\<bar>
        = \<bar>(of_int (round_half_even (x / ?ulp)) - x / ?ulp) * ?ulp\<bar>"
      by (simp only: abs_mult)
    moreover have "(of_int (round_half_even (x / ?ulp)) - x / ?ulp) * ?ulp
        = of_int (round_half_even (x / ?ulp)) * ?ulp - x"
      using ulp by (simp add: left_diff_distrib)
    moreover have "\<bar>?ulp\<bar> = ?ulp" using ulp by simp
    ultimately show ?thesis by simp
  qed
  ultimately have "\<bar>to_double_pos x - x\<bar> \<le> 1 / 2 * ?ulp"
    by (simp add: to_double_pos_def Let_def)
  also have "1 / 2 * ?ulp = 2 powi ?e / 2 ^ 53" by (simp add: split)
  also have "\<dots> \<le> x / 2 ^ 53" using ilog2_lower[OF assms] by (simp add: divide_right_mono)
  finally show ?thesis .
qed

lemma to_double_pos_nonneg: "0 < x \<Longrightarrow> 0 \<le> to_double_pos x"
  by (simp add: to_double_pos_def Let_def round_half_even_nonneg)

lemma to_double_error: "\<bar>to_double x - x\<bar> \<le> \<bar>x\<bar> / 2 ^ 53"
proof -
  consider "x = 0" | "0 < x" | "x < 0" by linarith
  then show ?thesis
  proof cases
    case 1
    then show ?thesis by (simp add: to_double_def)
  next
    case 2
    then show ?thesis using to_double_pos_error[of x] by (simp add: to_double_def)
  next
    case 3
    then have "\<bar>to_double_pos (- x) - (- x)\<bar> \<le> (- x) / 2 ^ 53"
      using to_double_pos_error[of "- x"] by simp
    moreover have "\<bar>to_double_pos (- x) - (- x)\<bar> = \<bar>- to_double_pos (- x) - x\<bar>"
      by (simp add: abs_minus_commute)
    ultimately show ?thesis using 3 by (simp add: to_double_def)
  qed
qed

lemma to_double_nonneg: "0 \<le> x \<Longrightarrow> 0 \<le> to_double x"
  using to_double_pos_nonneg[of x] by (auto simp: to_double_def)

lemma to_double_nonpos: "x \<le> 0 \<Longrightarrow> to_double x \<le> 0"
  using to_double_pos_nonneg[of "- x"] by (auto simp: to_double_def)

text \<open>For an output no larger than the input, the percentage the machine computes is
  within \<open>2^-40\<close> of the exact one.\<close>

lemma percent_band:
  fixes originalSize newSize :: nat
  assumes "0 < originalSize" "newSize \<le> originalSize"
  defines "q \<equiv> (of_nat originalSize - of_nat newSize) / (of_nat originalSize :: rat)"
  shows "q * 100 - 1 / 2 ^ 40 \<le> to_double (to_double q * 100)
         \<and> to_double (to_double q * 100) \<le> q * 100 + 1 / 2 ^ 40
         \<and> 0 \<le> to_double (to_double q * 100)"
proof -
  define eps where "eps = (1::rat) / 2 ^ 53"
  have eps: "0 \<le> eps" "eps \<le> 1" "300 * eps \<le> 1 / 2 ^ 40" by (simp_all add: eps_def)
  have q0: "0 \<le> q" using assms(1,2) by (simp add: q_def)
  have "of_nat originalSize - of_nat newSize \<le> (of_nat originalSize :: rat)" by simp
  then have q1: "q \<le> 1" using assms(1) by (simp add: q_def divide_le_eq)
  have e1: "\<bar>to_double q - q\<bar> \<le> eps"
  proof -
    have "\<bar>to_double q - q\<bar> \<le> \<bar>q\<bar> / 2 ^ 53" by (rule to_double_error)
    also have "\<dots> \<le> 1 / 2 ^ 53" using q0 q1 by (simp add: divide_right_mono)
    finally show ?thesis by (simp only: eps_def)
  qed
  have d0: "0 \<le> to_double q" using q0 by (rule to_double_nonneg)
  have d2: "to_double q \<le> 2" using e1 q1 eps by linarith
  have e2: "\<bar>to_double (to_double q * 100) - to_double q * 100\<bar> \<le> 200 * eps"
  proof -
    have "\<bar>to_double (to_double q * 100) - to_double q * 100\<bar> \<le> \<bar>to_double q * 100\<bar> / 2 ^ 53"
      by (rule to_double_error)
    also have "\<dots> \<le> 200 / 2 ^ 53" using d0 d2 by (simp add: divide_right_mono)
    finally show ?thesis by (simp add: eps_def)
  qed
  have "\<bar>to_double (to_double q * 100) - q * 100\<bar> \<le> 300 * eps"
    using e1 e2 by linarith
  then have "\<bar>to_double (to_double q * 100) - q * 100\<bar> \<le> 1 / 2 ^ 40"
    using eps(3) by linarith
  moreover have "0 \<le> to_double (to_double q * 100)"
    using d0 by (simp add: to_double_nonneg)
  ultimately show ?thesis by linarith
qed

lemma js_round_eqI: "of_int k \<le> x + 1 / 2 \<Longrightarrow> x + 1 / 2 < of_int k + 1 \<Longrightarrow> js_round x = k"
  unfolding js_round_def by (rule floor_unique)

text \<open>
  C8, as the claim states it, fails at a tie: for an original size of 200 bytes and a new
  size of 85 bytes the exact percentage is 57.5 and the stated formula gives 58, while
  the quotient 0.575 and its product with 100 are rounded by the machine to
  57.49999999999999, so that the code reports 57.
\<close>

theorem savings_counterexample:
  "calculateSavings 200 85 = 57
   \<and> max 0 (js_round ((of_nat (200::nat) - of_nat (85::nat)) / of_nat (200::nat) * 100)) = 58"
proof -
  have "js_round (to_double (to_double (23 / 40) * 100)) = 57" by code_simp
  then have "calculateSavings 200 85 = 57" by (simp add: calculateSavings_def)
  moreover have "js_round (115 / 2) = 58" by (rule js_round_eqI) simp_all
  ultimately show ?thesis by simp
qed

text \<open>
  C8, amended. The reported savings percentage is 0 for a zero original size and never
  negative: an output at least as large as the input is reported as 0. It is at most
  100, and the result record built by \<open>createResultObject\<close> carries the same number. For an
  output no larger than the input it is \<open>Math.round\<close> of the percentage
  \<open>(originalSize - newSize) / originalSize * 100\<close> as the machine computes it, which
  lies between the roundings of the exact percentage minus and plus \<open>2^-40\<close>: it is the
  rounded exact percentage except within \<open>2^-40\<close> of a tie.
\<close>

theorem savings_floor:
  "calculateSavings 0 newSize = 0
   \<and> 0 \<le> calculateSavings originalSize newSize
   \<and> calculateSavings originalSize newSize \<le> 100
   \<and> (originalSize \<le> newSize \<longrightarrow> calculateSavings originalSize newSize = 0)
   \<and> res_savings (createResultObject b name originalSize fmt th)
       = calculateSavings originalSize (blob_size b)
   \<and> (0 < originalSize \<and> newSize \<le> originalSize \<longrightarrow>
        js_round ((of_nat originalSize - of_nat newSize) / of_nat originalSize * 100 - 1 / 2 ^ 40)
          \<le> calculateSavings originalSize newSize
        \<and> calculateSavings originalSize newSize
          \<le> js_round ((of_nat originalSize - of_nat newSize) / of_nat originalSize * 100 + 1 / 2 ^ 40))"
proof -
  let ?q = "(of_nat originalSize - of_nat newSize) / (of_nat originalSize :: rat)"
  let ?p1 = "to_double (to_double ?q * 100)"
  have zero: "calculateSavings 0 newSize = 0" by (simp add: calculateSavings_def)
  have nonneg: "0 \<le> calculateSavings originalSize newSize"
    by (simp add: calculateSavings_def Let_def)
  have same: "res_savings (createResultObject b name originalSize fmt th)
       = calculateSavings originalSize (blob_size b)"
    by (simp add: calculateSavings_def createResultObject_def Let_def)
  have larger: "calculateSavings originalSize newSize = 0" if "originalSize \<le> newSize"
  proof (cases "originalSize = 0")
    case True
    then show ?thesis by (simp add: calculateSavings_def)
  next
    case False
    then have "?q \<le> 0" using that by (simp add: divide_le_eq)
    then have "to_double ?q \<le> 0" by (rule to_double_nonpos)
    then have "to_double ?q * 100 \<le> 0" by (simp add: mult_le_0_iff)
    then have "?p1 \<le> 0" by (rule to_double_nonpos)
    then have "js_round ?p1 \<le> 0" by (rule js_round_nonpos)
    then show ?thesis using False by (simp add: calculateSavings_def Let_def)
  qed
  have band: "js_round (?q * 100 - 1 / 2 ^ 40) \<le> calculateSavings originalSize newSize
        \<and> calculateSavings originalSize newSize \<le> js_round (?q * 100 + 1 / 2 ^ 40)"
    if "0 < originalSize" "newSize \<le> originalSize"
  proof -
    have b: "?q * 100 - 1 / 2 ^ 40 \<le> ?p1" "?p1 \<le> ?q * 100 + 1 / 2 ^ 40" "0 \<le> ?p1"
      using percent_band[OF that] by simp_all
    have "0 \<le> js_round ?p1" using js_round_mono[OF b(3)] js_round_of_int[of 0] by simp
    then have "calculateSavings originalSize newSize = js_round ?p1"
      using that(1) by (simp add: calculateSavings_def Let_def)
    then show ?thesis using js_round_mono[OF b(1)] js_round_mono[OF b(2)] by simp
  qed
  have upper: "calculateSavings originalSize newSize \<le> 100"
  proof (cases "0 < originalSize \<and> newSize \<le> originalSize")
    case True
    then have "?q \<le> 1" by (simp add: divide_le_eq)
    then have "?q * 100 \<le> 1 * 100" by (rule mult_right_mono) simp
    then have "?q * 100 + 1 / 2 ^ 40 \<le> 100 + 1 / 2 ^ 40"
      by (simp only: mult_1 add_le_cancel_right)
    then have "js_round (?q * 100 + 1 / 2 ^ 40) \<le> js_round (100 + 1 / 2 ^ 40)"
      by (rule js_round_mono)
    moreover have "js_round (100 + 1 / 2 ^ 40) = 100" by (rule js_round_eqI) simp_all
    ultimately show ?thesis using band True by linarith
  next
    case False
    then have "originalSize = 0 \<or> originalSize \<le> newSize" by linarith
    then show ?thesis using zero larger by (auto simp: calculateSavings_def)
  qed
  show ?thesis using zero nonneg upper larger same band by blast
qed

theorem savings_floor_witness:
  "(1000::nat) \<le> 1500 \<and> calculateSavings 1000 1500 = 0
   \<and> (0::nat) < 1000 \<and> (400::nat) \<le> 1000 \<and> calculateSavings 1000 400 = 60
   \<and> (0::nat) < 3 \<and> (1::nat) \<le> 3 \<and> calculateSavings 3 1 = 67
   \<and> calculateSavings 0 400 = 0"
proof -
  have le: "(1000::nat) \<le> 1500" by simp
  have a: "calculateSavings 1000 1500 = 0"
    using le savings_floor [where originalSize = 1000 and newSize = 1500] by blast
  have z: "calculateSavings 0 400 = 0"
    using savings_floor [where originalSize = 0 and newSize = 400] by blast
  have h1: "(0::nat) < 1000 \<and> (400::nat) \<le> 1000" by simp
  have lo1: "js_round ((of_nat (1000::nat) - of_nat (400::nat)) / of_nat (1000::nat) * 100 - 1 / 2 ^ 40) = 60"
    by (rule js_round_eqI) simp_all
  have hi1: "js_round ((of_nat (1000::nat) - of_nat (400::nat)) / of_nat (1000::nat) * 100 + 1 / 2 ^ 40) = 60"
    by (rule js_round_eqI) simp_all
  have "js_round ((of_nat (1000::nat) - of_nat (400::nat)) / of_nat (1000::nat) * 100 - 1 / 2 ^ 40)
          \<le> calculateSavings 1000 400
        \<and> calculateSavings 1000 400
          \<le> js_round ((of_nat (1000::nat) - of_nat (400::nat)) / of_nat (1000::nat) * 100 + 1 / 2 ^ 40)"
    using h1 savings_floor [where originalSize = 1000 and newSize = 400] by blast
  then have b: "calculateSavings 1000 400 = 60" unfolding lo1 hi1 by linarith
  have h2: "(0::nat) < 3 \<and> (1::nat) \<le> 3" by simp
  have lo2: "js_round ((of_nat (3::nat) - of_nat (1::nat)) / of_nat (3::nat) * 100 - 1 / 2 ^ 40) = 67"
    by (rule js_round_eqI) simp_all
  have hi2: "js_round ((of_nat (3::nat) - of_nat (1::nat)) / of_nat (3::nat) * 100 + 1 / 2 ^ 40) = 67"
    by (rule js_round_eqI) simp_all
  have "js_round ((of_nat (3::nat) - of_nat (1::nat)) / of_nat (3::nat) * 100 - 1 / 2 ^ 40)
          \<le> calculateSavings 3 1
        \<and> calculateSavings 3 1
          \<le> js_round ((of_nat (3::nat) - of_nat (1::nat)) / of_nat (3::nat) * 100 + 1 / 2 ^ 40)"
    using h2 savings_floor [where originalSize = 3 and newSize = 1] by blast
  then have c: "calculateSavings 3 1 = 67" unfolding lo2 hi2 by linarith
  show ?thesis using a b c z by simp
qed

text \<open>The base name the code computes is the specification's: the name up to its last dot.\<close>

lemma lastIndexOf_from_absent:
  "c \<notin> set xs \<Longrightarrow> lastIndexOf_from xs c i found = found"
  by (induction xs arbitrary: i found) auto

lemma lastIndexOf_from_last:
  "c \<notin> set zs \<Longrightarrow> lastIndexOf_from (ys @ c # zs) c i found = i + int (length ys)"
  by (induction ys arbitrary: i found) (auto simp: lastIndexOf_from_absent)

lemma baseName_of_spec: "baseName_of name = strip_last_extension name"
proof (cases "CHR ''.'' \<in> set name")
  case False
  then show ?thesis
    by (simp add: baseName_of_def strip_last_extension_def lastIndexOf_def lastIndexOf_from_absent)
next
  case True
  then obtain ys zs where split: "name = ys @ CHR ''.'' # zs" and last: "CHR ''.'' \<notin> set zs"
    by (auto dest: split_list_last)
  have idx: "lastIndexOf name CHR ''.'' = int (length ys)"
    using last by (simp add: split lastIndexOf_def lastIndexOf_from_last)
  have "dropWhile (\<lambda>c. c \<noteq> CHR ''.'') (rev name) = CHR ''.'' # rev ys"
    using last by (auto simp: split dropWhile_append3)
  then have "strip_last_extension name = ys"
    using True by (simp add: strip_last_extension_def)
  moreover have "baseName_of name = ys"
    by (simp add: baseName_of_def idx slice0_def) (simp add: split)
  ultimately show ?thesis by simp
qed

text \<open>Outside the lower-case tokens of the format table the two builders part: the
  lookup of \<open>generateOutputFilename\<close> ignores case and falls back to \<open>jpg\<close>.\<close>

lemma generateOutputFilename_upper_case:
  "generateOutputFilename ''photo.jpg'' ''PNG'' = ''photo_optimized.png''"
  by (simp add: generateOutputFilename_def baseName_of_spec strip_last_extension_def
      getMimeType_def toLowerCase_def getExtensionFromMime_def)

text \<open>
  C6. For every original name and every target format (\<open>jpeg\<close>, \<open>jpg\<close>, \<open>png\<close>, \<open>webp\<close>,
  \<open>gif\<close>) the generated output name is \<open>{baseName}_optimized.{ext}\<close>, where \<open>baseName\<close> is
  the name with its last dot-extension removed (the whole name without a dot) and
  \<open>ext\<close> is \<open>jpg\<close> for \<open>jpeg\<close> and the format name verbatim otherwise: both
  \<open>generateOutputFilename\<close> and \<open>createResultObject\<close>, the builder the pipeline calls,
  produce it, and \<open>createResultObject\<close> does so for every format string. In particular
  \<open>generateOutputFilename("vacation.JPG", "webp") = "vacation_optimized.webp"\<close>. In
  general the extension \<open>generateOutputFilename\<close> appends is the table's extension of
  the lower-cased format, \<open>jpg\<close> for a format outside the table.
\<close>

theorem output_filename_convention:
  "res_newName (createResultObject b name sz fmt th)
     = strip_last_extension name @ ''_optimized.'' @ spec_extension fmt
   \<and> (\<forall>f \<in> set [''jpeg'', ''jpg'', ''png'', ''webp'', ''gif''].
        generateOutputFilename name f = strip_last_extension name @ ''_optimized.'' @ spec_extension f)
   \<and> generateOutputFilename name fmt
       = strip_last_extension name @ ''_optimized.''
           @ (if toLowerCase fmt \<in> set [''png'', ''webp'', ''gif''] then toLowerCase fmt else ''jpg'')
   \<and> generateOutputFilename ''vacation.JPG'' ''webp'' = ''vacation_optimized.webp''"
proof (intro conjI)
  show "res_newName (createResultObject b name sz fmt th)
     = strip_last_extension name @ ''_optimized.'' @ spec_extension fmt"
    by (simp add: createResultObject_def baseName_of_spec spec_extension_def Let_def)
  show "\<forall>f \<in> set [''jpeg'', ''jpg'', ''png'', ''webp'', ''gif''].
        generateOutputFilename name f = strip_last_extension name @ ''_optimized.'' @ spec_extension f"
    by (simp add: generateOutputFilename_def baseName_of_spec spec_extension_def
        getMimeType_def toLowerCase_def getExtensionFromMime_def)
  show "generateOutputFilename name fmt
       = strip_last_extension name @ ''_optimized.''
           @ (if toLowerCase fmt \<in> set [''png'', ''webp'', ''gif''] then toLowerCase fmt else ''jpg'')"
    by (simp add: generateOutputFilename_def baseName_of_spec getMimeType_def
        getExtensionFromMime_def)
  show "generateOutputFilename ''vacation.JPG'' ''webp'' = ''vacation_optimized.webp''"
    by (simp add: generateOutputFilename_def baseName_of_spec strip_last_extension_def
        getMimeType_def toLowerCase_def getExtensionFromMime_def)
qed

theorem output_filename_convention_witness:
  "''webp'' \<in> set [''jpeg'', ''jpg'', ''png'', ''webp'', ''gif'']
   \<and> generateOutputFilename ''vacation.JPG'' ''webp'' = ''vacation_optimized.webp''
   \<and> res_newName (createResultObject \<lparr> blob_type = ''image/webp'', blob_bytes = [] \<rparr>
                     ''vacation.JPG'' 10 ''webp'' '''') = ''vacation_optimized.webp''"
  using output_filename_convention
          [of "\<lparr> blob_type = ''image/webp'', blob_bytes = [] \<rparr>" "''vacation.JPG''" 10 "''webp''" "''''"]
  by (simp add: strip_last_extension_def spec_extension_def)

section \<open>Verification: orientation and target dimensions\<close>

text \<open>
  C4. Each EXIF code 1 to 8 resolves to the rotation and mirror flag of the orientation
  table; every other code (0, negative, above 8) resolves to the transform of code 1. A file
  whose type names neither \<open>jpeg\<close> nor \<open>jpg\<close> (so every PNG, WebP and GIF), a failed import
  of the EXIF library, a failed extraction and an absent or zero tag all give
  orientation 1, while a JPEG file whose tag is a code \<open>c\<close> other than 0 is resolved to
  \<open>c\<close> itself, and so to the transform the table gives for \<open>c\<close>. \<open>processImage\<close> applies the
  transform of the resolved orientation to its canvas, and whatever the extraction does
  it fails only when the image does not decode or the canvas has no 2D context.
\<close>

theorem orientation_resolution:
  "transform_for 1 = \<lparr> tr_rotate = 0, tr_flip = False \<rparr>
 \<and> transform_for 2 = \<lparr> tr_rotate = 0, tr_flip = True \<rparr>
 \<and> transform_for 3 = \<lparr> tr_rotate = 180, tr_flip = False \<rparr>
 \<and> transform_for 4 = \<lparr> tr_rotate = 180, tr_flip = True \<rparr>
 \<and> transform_for 5 = \<lparr> tr_rotate = 90, tr_flip = True \<rparr>
 \<and> transform_for 6 = \<lparr> tr_rotate = 90, tr_flip = False \<rparr>
 \<and> transform_for 7 = \<lparr> tr_rotate = 270, tr_flip = True \<rparr>
 \<and> transform_for 8 = \<lparr> tr_rotate = 270, tr_flip = False \<rparr>
 \<and> (\<forall>c. c < 1 \<or> 8 < c \<longrightarrow> transform_for c = transform_for 1)
 \<and> (\<not> str_includes (file_type f) ''jpeg'' \<and> \<not> str_includes (file_type f) ''jpg''
        \<longrightarrow> getExifOrientation exifr f = 1)
 \<and> (file_type f \<in> {''image/png'', ''image/webp'', ''image/gif''} \<longrightarrow> getExifOrientation exifr f = 1)
 \<and> (exifr f \<in> {ImportFails, OrientationThrows, OrientationIs None, OrientationIs (Some 0)}
        \<longrightarrow> getExifOrientation exifr f = 1)
 \<and> (\<forall>c. (str_includes (file_type f) ''jpeg'' \<or> str_includes (file_type f) ''jpg'')
          \<and> exifr f = OrientationIs (Some c) \<and> c \<noteq> 0
        \<longrightarrow> getExifOrientation exifr f = c)
 \<and> (\<forall>c. file_type f = ''image/jpeg'' \<and> exifr f = OrientationIs (Some c)
        \<longrightarrow> transform_for (getExifOrientation exifr f) = transform_for c)
 \<and> (\<forall>img. loadImage_env e f = Some img \<and> getContext2d e \<longrightarrow>
        (\<exists>pd dw dh. processImage e f st = Inr pd
           \<and> cv_ops (pd_canvas pd)
               = applyExifTransform (pd_width pd) (pd_height pd)
                   (transform_for (getExifOrientation (exifr_env e) f))
                 @ [DrawImage img 0 0 (Some (dw, dh)), SetTransformIdentity]))
 \<and> (\<forall>err. processImage e f st = Inl err \<longrightarrow> loadImage_env e f = None \<or> \<not> getContext2d e)"
proof -
  have table:
    "transform_for 1 = \<lparr> tr_rotate = 0, tr_flip = False \<rparr>"
    "transform_for 2 = \<lparr> tr_rotate = 0, tr_flip = True \<rparr>"
    "transform_for 3 = \<lparr> tr_rotate = 180, tr_flip = False \<rparr>"
    "transform_for 4 = \<lparr> tr_rotate = 180, tr_flip = True \<rparr>"
    "transform_for 5 = \<lparr> tr_rotate = 90, tr_flip = True \<rparr>"
    "transform_for 6 = \<lparr> tr_rotate = 90, tr_flip = False \<rparr>"
    "transform_for 7 = \<lparr> tr_rotate = 270, tr_flip = True \<rparr>"
    "transform_for 8 = \<lparr> tr_rotate = 270, tr_flip = False \<rparr>"
    by (simp_all add: transform_for_def ORIENTATION_TRANSFORMS_def)
  have range: "\<forall>c. c < 1 \<or> 8 < c \<longrightarrow> transform_for c = transform_for 1"
    by (simp add: transform_for_def ORIENTATION_TRANSFORMS_def)
  have other: "\<not> str_includes (file_type f) ''jpeg'' \<and> \<not> str_includes (file_type f) ''jpg''
        \<longrightarrow> getExifOrientation exifr f = 1"
    by (simp add: getExifOrientation_def)
  have types: "file_type f \<in> {''image/png'', ''image/webp'', ''image/gif''}
        \<longrightarrow> getExifOrientation exifr f = 1"
    by (auto simp: getExifOrientation_def)
  have fails: "exifr f \<in> {ImportFails, OrientationThrows, OrientationIs None, OrientationIs (Some 0)}
        \<longrightarrow> getExifOrientation exifr f = 1"
    by (auto simp: getExifOrientation_def)
  have pass: "\<forall>c. (str_includes (file_type f) ''jpeg'' \<or> str_includes (file_type f) ''jpg'')
          \<and> exifr f = OrientationIs (Some c) \<and> c \<noteq> 0
        \<longrightarrow> getExifOrientation exifr f = c"
    by (auto simp: getExifOrientation_def)
  have jpeg: "\<forall>c. file_type f = ''image/jpeg'' \<and> exifr f = OrientationIs (Some c)
        \<longrightarrow> transform_for (getExifOrientation exifr f) = transform_for c"
    by (auto simp: getExifOrientation_def transform_for_def ORIENTATION_TRANSFORMS_def)
  have canvas: "\<forall>img. loadImage_env e f = Some img \<and> getContext2d e \<longrightarrow>
        (\<exists>pd dw dh. processImage e f st = Inr pd
           \<and> cv_ops (pd_canvas pd)
               = applyExifTransform (pd_width pd) (pd_height pd)
                   (transform_for (getExifOrientation (exifr_env e) f))
                 @ [DrawImage img 0 0 (Some (dw, dh)), SetTransformIdentity])"
    by (simp add: processImage_def loadImage_def Let_def)
  have fatal: "\<forall>err. processImage e f st = Inl err \<longrightarrow> loadImage_env e f = None \<or> \<not> getContext2d e"
    by (auto simp: processImage_def loadImage_def Let_def split: option.splits if_splits)
  show ?thesis
    using table range other types fails pass jpeg canvas fatal by (intro conjI)
qed

theorem orientation_resolution_witness:
  "transform_for 0 = \<lparr> tr_rotate = 0, tr_flip = False \<rparr>
   \<and> transform_for 9 = \<lparr> tr_rotate = 0, tr_flip = False \<rparr>
   \<and> getExifOrientation (\<lambda>f. OrientationIs (Some 6))
        \<lparr> file_name = ''a.png'', file_size = 10, file_type = ''image/png'' \<rparr> = 1
   \<and> getExifOrientation (\<lambda>f. OrientationThrows)
        \<lparr> file_name = ''a.jpg'', file_size = 10, file_type = ''image/jpeg'' \<rparr> = 1
   \<and> getExifOrientation (\<lambda>f. OrientationIs (Some 6))
        \<lparr> file_name = ''a.jpg'', file_size = 10, file_type = ''image/jpeg'' \<rparr> = 6
   \<and> transform_for (getExifOrientation (\<lambda>f. OrientationIs (Some 6))
        \<lparr> file_name = ''a.jpg'', file_size = 10, file_type = ''image/jpeg'' \<rparr>)
       = \<lparr> tr_rotate = 90, tr_flip = False \<rparr>
   \<and> (\<exists>pd. processImage demo_env \<lparr> file_name = ''a.png'', file_size = 10, file_type = ''image/png'' \<rparr>
              jpeg_settings = Inr pd)
   \<and> (\<exists>err. processImage demo_env
               \<lparr> file_name = ''broken.png'', file_size = 10, file_type = ''image/png'' \<rparr>
               jpeg_settings = Inl err)
   \<and> loadImage_env demo_env \<lparr> file_name = ''broken.png'', file_size = 10, file_type = ''image/png'' \<rparr>
       = None"
proof -
  let ?png = "\<lparr> file_name = ''a.png'', file_size = 10, file_type = ''image/png'' \<rparr>"
  let ?jpg = "\<lparr> file_name = ''a.jpg'', file_size = 10, file_type = ''image/jpeg'' \<rparr>"
  let ?bad = "\<lparr> file_name = ''broken.png'', file_size = 10, file_type = ''image/png'' \<rparr>"
  have "\<not> str_includes (file_type ?png) ''jpeg'' \<and> \<not> str_includes (file_type ?png) ''jpg''"
    by simp
  then have a: "getExifOrientation (\<lambda>f. OrientationIs (Some 6)) ?png = 1"
    using orientation_resolution [of ?png "\<lambda>f. OrientationIs (Some 6)"] by blast
  have b: "getExifOrientation (\<lambda>f. OrientationThrows) ?jpg = 1"
    using orientation_resolution [of ?jpg "\<lambda>f. OrientationThrows"] by blast
  have inc: "str_includes (file_type ?jpg) ''jpeg''" by simp
  have c: "getExifOrientation (\<lambda>f. OrientationIs (Some 6)) ?jpg = 6"
  proof -
    have "(str_includes (file_type ?jpg) ''jpeg'' \<or> str_includes (file_type ?jpg) ''jpg'')
          \<and> (\<lambda>f. OrientationIs (Some 6)) ?jpg = OrientationIs (Some 6) \<and> (6::int) \<noteq> 0"
      using inc by simp
    then show ?thesis
      using orientation_resolution [of ?jpg "\<lambda>f. OrientationIs (Some 6)"] by blast
  qed
  have d: "transform_for 0 = \<lparr> tr_rotate = 0, tr_flip = False \<rparr>"
    "transform_for 9 = \<lparr> tr_rotate = 0, tr_flip = False \<rparr>"
    "transform_for 6 = \<lparr> tr_rotate = 90, tr_flip = False \<rparr>"
    using orientation_resolution [of ?png "\<lambda>f. OrientationThrows"] by auto
  have load: "loadImage_env demo_env ?png = Some transparent_image \<and> getContext2d demo_env"
    by (simp add: demo_env_def)
  have g: "\<exists>pd. processImage demo_env ?png jpeg_settings = Inr pd"
    using load orientation_resolution [where e = demo_env and f = ?png and st = jpeg_settings]
    by blast
  have h: "processImage demo_env ?bad jpeg_settings
             = Inl (ImageOptimizerError ''Failed to load image'' FILE_CORRUPTED True)"
    by (simp add: processImage_def loadImage_def demo_env_def rethrow_def mkImageOptimizerError_def)
  then have i: "loadImage_env demo_env ?bad = None \<or> \<not> getContext2d demo_env"
    using orientation_resolution [where e = demo_env and f = ?bad and st = jpeg_settings]
    by blast
  have j: "loadImage_env demo_env ?bad = None" using i by (simp add: demo_env_def)
  show ?thesis using a b c d g h j by simp
qed

text \<open>What does hold of the planned size: after the last step each side lies between 0
  and 16384.\<close>

lemma downscale_bound:
  assumes "1 \<le> a" "1 \<le> b"
  shows "(of_int (js_round (a * (16384 / max a b))) :: rat) \<le> 16384
         \<and> (0::rat) \<le> of_int (js_round (a * (16384 / max a b)))"
proof -
  have pos: "0 < max a b" using assms by simp
  have "a \<le> max a b" by simp
  then have "a * 16384 \<le> 16384 * max a b" by simp
  then have "a * 16384 / max a b \<le> 16384" using pos by (simp add: divide_le_eq)
  then have le: "a * (16384 / max a b) \<le> 16384" by simp
  have "js_round (a * (16384 / max a b)) \<le> 16384"
    using js_round_mono[OF le] js_round_of_int[of 16384] by simp
  then have up: "(of_int (js_round (a * (16384 / max a b))) :: rat) \<le> 16384" by linarith
  have "0 \<le> a * (16384 / max a b)" using assms pos by simp
  then have "0 \<le> js_round (a * (16384 / max a b))"
    using js_round_mono[of 0 "a * (16384 / max a b)"] js_round_of_int[of 0] by simp
  then have "(0::rat) \<le> of_int (js_round (a * (16384 / max a b)))" by linarith
  then show ?thesis using up by simp
qed

lemma calculateDimensions_final:
  "\<exists>nw nh. 1 \<le> nw \<and> 1 \<le> nh
     \<and> calculateDimensions ow oh tw th u m =
         (if nw > 16384 \<or> nh > 16384
          then \<lparr> width = of_int (js_round (nw * (16384 / max nw nh))),
                 height = of_int (js_round (nh * (16384 / max nw nh))) \<rparr>
          else \<lparr> width = nw, height = nh \<rparr>)"
  unfolding calculateDimensions_def Let_def split_def MAX_DIMENSION_def
  apply (rule exI, rule exI, intro conjI)
    prefer 3
    apply (rule refl)
   apply simp_all
  done

lemma calculateDimensions_bounds:
  "width (calculateDimensions ow oh tw th u m) \<le> 16384
   \<and> height (calculateDimensions ow oh tw th u m) \<le> 16384
   \<and> 0 \<le> width (calculateDimensions ow oh tw th u m)
   \<and> 0 \<le> height (calculateDimensions ow oh tw th u m)"
proof -
  obtain nw nh where n: "1 \<le> nw" "1 \<le> nh"
    and eq: "calculateDimensions ow oh tw th u m =
         (if nw > 16384 \<or> nh > 16384
          then \<lparr> width = of_int (js_round (nw * (16384 / max nw nh))),
                 height = of_int (js_round (nh * (16384 / max nw nh))) \<rparr>
          else \<lparr> width = nw, height = nh \<rparr>)"
    using calculateDimensions_final by blast
  show ?thesis
  proof (cases "nw > 16384 \<or> nh > 16384")
    case True
    then show ?thesis
      using eq downscale_bound[OF n] downscale_bound[OF n(2) n(1)] by (simp add: max.commute)
  next
    case False
    then show ?thesis using eq n by simp
  qed
qed

text \<open>
  C1. \<open>calculateDimensions\<close> is a function of its six arguments, so two calls on the same
  input agree, and no side exceeds 16384. Its output is not always at least 1 on each
  axis: the clamp to 1 comes before the downscale to 16384, and the downscale rounds a
  small side to 0. For a \<open>100 \<times> 100\<close> source, a requested size of \<open>65536 \<times> 1\<close> pixels and no
  aspect lock, the scale is \<open>16384 / 65536 = 0.25\<close> and the result is \<open>16384 \<times> 0\<close>.
\<close>

theorem calculateDimensions_downscale_to_zero:
  "calculateDimensions 100 100 (Some 65536) (Some 1) ''px'' False = \<lparr> width = 16384, height = 0 \<rparr>"
  by code_simp

section \<open>Verification: content analysis\<close>

lemma length_sample_raster: "length sample_raster = 5000"
  unfolding sample_raster_def by (simp only: length_map length_upt diff_zero)

lemma nth_sample_raster: "k < 5000 \<Longrightarrow> sample_raster ! k = sample_pixel (k div 10)"
  unfolding sample_raster_def by (simp only: nth_map length_upt diff_zero nth_upt add_0)

lemma parity_step:
  "0 < (j::nat) \<Longrightarrow> (j mod 2 = 0 \<and> (j - 1) mod 2 = 1) \<or> (j mod 2 = 1 \<and> (j - 1) mod 2 = 0)"
  by arith

lemma red_step: "0 < j \<Longrightarrow> \<bar>int (240 * (j mod 2)) - int (240 * ((j - 1) mod 2))\<bar> = 240"
  using parity_step[of j] by auto

text \<open>An invariant rule for the sampling loop: the loop visits the pixels \<open>0, 10, 20, ...\<close>.\<close>

lemma analyze_loop_invariant:
  assumes "P j st" and "k = 10 * j"
    and "\<And>j st. 10 * j < length data \<Longrightarrow> P j st \<Longrightarrow> P (Suc j) (analyze_step data (10 * j) st)"
  shows "\<exists>m. P m (analyze_loop data k st) \<and> length data \<le> 10 * m"
  using assms
proof (induction data k st arbitrary: j rule: analyze_loop.induct)
  case (1 data k st)
  show ?case
  proof (cases "k < length data")
    case True
    have "10 * j < length data" using True "1.prems"(2) by simp
    then have "P (Suc j) (analyze_step data (10 * j) st)"
      using "1.prems"(1,3) by blast
    then have "P (Suc j) (analyze_step data k st)"
      using "1.prems"(2) by simp
    moreover have "k + 10 = 10 * Suc j" using "1.prems"(2) by simp
    ultimately have "\<exists>m. P m (analyze_loop data (k + 10) (analyze_step data k st)) \<and> length data \<le> 10 * m"
      using "1.IH"[OF True] "1.prems"(3) by blast
    then show ?thesis using True by (subst analyze_loop.simps) simp
  next
    case False
    then have "analyze_loop data k st = st" by (subst analyze_loop.simps) simp
    then show ?thesis using False "1.prems"(1,2) by auto
  qed
qed

lemma quantized_sample:
  "(px_r (sample_pixel j) div 16, px_g (sample_pixel j) div 16, px_b (sample_pixel j) div 16)
     = (15 * (j mod 2), (j div 2) mod 16, j div 32)"
proof -
  have "j mod 2 = 0 \<or> j mod 2 = 1" by arith
  then have "240 * (j mod 2) div 16 = 15 * (j mod 2)" by auto
  then show ?thesis by (simp add: sample_pixel_def)
qed

lemma sample_step:
  assumes "10 * j < length sample_raster" "sample_inv j st"
  shows "sample_inv (Suc j) (analyze_step sample_raster (10 * j) st)"
proof -
  have j: "j < 500" using assms(1) by (simp add: length_sample_raster)
  have cur: "sample_raster ! (10 * j) = sample_pixel j"
    using j by (simp add: nth_sample_raster)
  have prev: "sample_raster ! (10 * j - 10) = sample_pixel (j - 1)" if "0 < j"
  proof -
    have "10 * j - 10 = 10 * (j - 1)" using that by simp
    then have "(10 * j - 10) div 10 = j - 1" by simp
    then show ?thesis using j by (simp add: nth_sample_raster)
  qed
  let ?st' = "analyze_step sample_raster (10 * j) st"
  have count: "as_pixelCount ?st' = Suc j"
    using assms(2) by (simp add: analyze_step_def Let_def sample_inv_def)
  have colors: "as_colorSet ?st' = (\<lambda>i. (15 * (i mod 2), (i div 2) mod 16, i div 32)) ` {..<Suc j}"
    using assms(2) quantized_sample[of j]
    by (simp add: analyze_step_def Let_def sample_inv_def cur lessThan_Suc)
  have var: "240 * (int (Suc j) - 1) \<le> as_totalVariance ?st' \<and> 0 \<le> as_totalVariance ?st'"
  proof (cases "j = 0")
    case True
    then show ?thesis using assms(2) by (simp add: analyze_step_def Let_def sample_inv_def)
  next
    case False
    then have pos: "0 < j" by simp
    have "as_totalVariance ?st' \<ge> as_totalVariance st + \<bar>int (px_r (sample_pixel j)) - int (px_r (sample_pixel (j - 1)))\<bar>"
      using pos by (simp add: analyze_step_def Let_def cur prev)
    moreover have "\<bar>int (px_r (sample_pixel j)) - int (px_r (sample_pixel (j - 1)))\<bar> = 240"
      using red_step[OF pos] by (simp add: sample_pixel_def)
    ultimately show ?thesis using assms(2) by (simp add: sample_inv_def)
  qed
  show ?thesis using j count colors var by (simp add: sample_inv_def)
qed

lemma bucket_digits: "(x::nat) = 32 * (x div 32) + 2 * (x div 2 mod 16) + x mod 2"
proof -
  have "x div 32 = x div 2 div 16" by (simp add: div_mult2_eq[symmetric])
  moreover have "x div 2 = 16 * (x div 2 div 16) + x div 2 mod 16" by simp
  moreover have "x = 2 * (x div 2) + x mod 2" by simp
  ultimately show ?thesis by linarith
qed

lemma inj_quantized: "inj (\<lambda>i::nat. (15 * (i mod 2), (i div 2) mod 16, i div 32))"
proof (rule injI)
  fix x y :: nat
  assume "(15 * (x mod 2), x div 2 mod 16, x div 32) = (15 * (y mod 2), y div 2 mod 16, y div 32)"
  then have "x mod 2 = y mod 2" "x div 2 mod 16 = y div 2 mod 16" "x div 32 = y div 32" by auto
  then show "x = y" using bucket_digits[of x] bucket_digits[of y] by simp
qed

lemma sample_final:
  "\<exists>st. analyze_loop sample_raster 0
            \<lparr> as_hasTransparency = False, as_colorSet = {}, as_totalVariance = 0, as_pixelCount = 0 \<rparr> = st
        \<and> as_pixelCount st = 500 \<and> card (as_colorSet st) = 500 \<and> 240 * 499 \<le> as_totalVariance st"
proof -
  let ?st0 = "\<lparr> as_hasTransparency = False, as_colorSet = {}, as_totalVariance = 0, as_pixelCount = 0 \<rparr>"
  have "sample_inv 0 ?st0" by (simp add: sample_inv_def)
  then obtain m where m: "sample_inv m (analyze_loop sample_raster 0 ?st0)" "length sample_raster \<le> 10 * m"
    using analyze_loop_invariant[of sample_inv 0 ?st0 0 sample_raster] sample_step by auto
  have "m = 500" using m by (simp add: sample_inv_def length_sample_raster)
  then have inv: "sample_inv 500 (analyze_loop sample_raster 0 ?st0)" using m by simp
  have "card ((\<lambda>i::nat. (15 * (i mod 2), (i div 2) mod 16, i div 32)) ` {..<500}) = 500"
    using card_image[OF inj_on_subset[OF inj_quantized subset_UNIV], of "{..<500}"] by simp
  then show ?thesis using inv by (simp add: sample_inv_def)
qed

text \<open>
  C7. For every raster the analysis never reports \<open>isPhoto\<close> and \<open>isGraphic\<close> together, and
  there is a raster (a \<open>100 \<times> 50\<close> one) for which it reports neither.
\<close>

theorem classifier_exclusive:
  "\<not> (isPhoto (analyzeImage w h data) \<and> isGraphic (analyzeImage w h data))
   \<and> (\<exists>w' h' data'. length data' = w' * h'
         \<and> \<not> isPhoto (analyzeImage w' h' data') \<and> \<not> isGraphic (analyzeImage w' h' data'))"
proof
  show "\<not> (isPhoto (analyzeImage w h data) \<and> isGraphic (analyzeImage w h data))"
    by (simp add: analyzeImage_def Let_def)
next
  obtain st where st: "analyze_loop sample_raster 0
            \<lparr> as_hasTransparency = False, as_colorSet = {}, as_totalVariance = 0, as_pixelCount = 0 \<rparr> = st"
    "as_pixelCount st = 500" "card (as_colorSet st) = 500" "240 * 499 \<le> as_totalVariance st"
    using sample_final by blast
  have "(20::rat) \<le> of_int (as_totalVariance st) / 500"
  proof -
    have "(10000::int) \<le> as_totalVariance st" using st(4) by simp
    then have "(10000::rat) \<le> of_int (as_totalVariance st)" by linarith
    then show ?thesis by simp
  qed
  then have "\<not> isPhoto (analyzeImage 100 50 sample_raster) \<and> \<not> isGraphic (analyzeImage 100 50 sample_raster)"
    using st by (simp add: analyzeImage_def Let_def)
  moreover have "length sample_raster = 100 * 50" by (simp add: length_sample_raster)
  ultimately show "\<exists>w' h' data'. length data' = w' * h'
         \<and> \<not> isPhoto (analyzeImage w' h' data') \<and> \<not> isGraphic (analyzeImage w' h' data')"
    by blast
qed

section \<open>Verification: quality search\<close>

lemma search_loop_calls:
  "fst (search_loop tb c m tB tol maxIter low high bestBlob bq it calls)
     \<le> calls + (if bestBlob = None then max 1 (nat (maxIter - it)) else nat (maxIter - it))"
proof (induction tb c m tB tol maxIter low high bestBlob bq it calls rule: search_loop.induct)
  case (1 tb c m tB tol maxIter low high bestBlob bq it calls)
  show ?case
  proof (cases "low \<le> high \<and> it < maxIter")
    case False
    then show ?thesis
      by (subst search_loop.simps) (auto split: option.splits sum.splits)
  next
    case True
    let ?mid = "js_round (of_int (low + high) / 2)"
    show ?thesis
    proof (cases "canvasToBlob_sc tb c m (of_int ?mid / 100)")
      case (Inl e)
      then show ?thesis using True
        by (subst search_loop.simps) (auto simp: Let_def)
    next
      case (Inr b)
      note ih = "1.IH"[OF True refl refl refl Inr refl refl refl]
      show ?thesis using True Inr ih
        by (subst search_loop.simps) (auto simp: Let_def)
    qed
  qed
qed

lemma search_loop_returns:
  assumes "\<forall>q. tb c m q \<noteq> None"
  shows "\<exists>r. snd (search_loop tb c m tB tol maxIter low high bestBlob bq it calls) = Inr r
            \<and> sr_blob r \<noteq> None"
  using assms
proof (induction tb c m tB tol maxIter low high bestBlob bq it calls rule: search_loop.induct)
  case (1 tb c m tB tol maxIter low high bestBlob bq it calls)
  have enc: "\<And>q. \<exists>b. canvasToBlob_sc tb c m q = Inr b"
    using "1.prems" by (auto simp: canvasToBlob_sc_def split: option.splits)
  show ?case
  proof (cases "low \<le> high \<and> it < maxIter")
    case False
    then show ?thesis using enc[of "of_int bq / 100"]
      by (subst search_loop.simps) (auto split: option.splits sum.splits)
  next
    case True
    let ?mid = "js_round (of_int (low + high) / 2)"
    obtain b where b: "canvasToBlob_sc tb c m (of_int ?mid / 100) = Inr b"
      using enc by blast
    note ih = "1.IH"[OF True refl refl refl b refl refl refl]
    show ?thesis using True b ih "1.prems"
      by (subst search_loop.simps) (auto simp: Let_def)
  qed
qed

lemma search_loop_rejects:
  "snd (search_loop tb c m tB tol maxIter low high bestBlob bq it calls) = Inl e
     \<Longrightarrow> e = Error ''Failed to create blob''"
proof (induction tb c m tB tol maxIter low high bestBlob bq it calls rule: search_loop.induct)
  case (1 tb c m tB tol maxIter low high bestBlob bq it calls)
  show ?case
  proof (cases "low \<le> high \<and> it < maxIter")
    case False
    then show ?thesis using "1.prems"
      by (subst (asm) search_loop.simps)
         (auto simp: canvasToBlob_sc_def split: option.splits sum.splits)
  next
    case True
    let ?mid = "js_round (of_int (low + high) / 2)"
    show ?thesis
    proof (cases "canvasToBlob_sc tb c m (of_int ?mid / 100)")
      case (Inl e')
      then show ?thesis using True "1.prems"
        by (subst (asm) search_loop.simps)
           (auto simp: Let_def canvasToBlob_sc_def split: option.splits)
    next
      case (Inr b)
      note ih = "1.IH"[OF True refl refl refl Inr refl refl refl]
      show ?thesis using True Inr ih "1.prems"
        by (subst (asm) search_loop.simps) (auto simp: Let_def split: if_splits)
    qed
  qed
qed

text \<open>
  C3, as the claim states it, fails: on a canvas for which the encoder yields no blob
  (\<open>toBlob\<close> calls back with \<open>null\<close>) the search rejects with an error and returns no
  result at all; and with \<open>maxIterations = 0\<close> it still makes one encode call.
\<close>

theorem findOptimalQuality_counterexample:
  "snd (findOptimalQuality failing_encoder () ''jpeg'' 100 default_options)
     = Inl (Error ''Failed to create blob'')
   \<and> fst (findOptimalQuality empty_encoder () ''jpeg'' 100 (default_options \<lparr> maxIterations := 0 \<rparr>))
       = 1"
  by (simp add: findOptimalQuality_def default_options_def failing_encoder_def empty_encoder_def
      Let_def search_loop.simps canvasToBlob_sc_def js_round_def)

text \<open>
  C3, amended. For every target size, canvas, format and options the search terminates
  after at most \<open>max(1, maxIterations)\<close> encode calls, that is at most \<open>maxIterations\<close>
  calls for the default 10 and any bound of at least 1. If the encoder yields a blob on
  every call for the canvas, the search returns a result whose blob is not null, also when
  no midpoint encode lands in the tolerance band; the only way it fails is the rejection
  \<open>Error('Failed to create blob')\<close> of an encode call that yielded no blob.
\<close>

theorem findOptimalQuality_bounded:
  "fst (findOptimalQuality toBlob canvas format targetSizeKB options)
      \<le> max 1 (nat (maxIterations options))
   \<and> ((\<forall>mimeType quality. toBlob canvas mimeType quality \<noteq> None) \<longrightarrow>
        (\<exists>r. snd (findOptimalQuality toBlob canvas format targetSizeKB options) = Inr r
              \<and> sr_blob r \<noteq> None))
   \<and> (\<forall>e. snd (findOptimalQuality toBlob canvas format targetSizeKB options) = Inl e \<longrightarrow>
          e = Error ''Failed to create blob'')"
proof (intro conjI)
  show "fst (findOptimalQuality toBlob canvas format targetSizeKB options)
      \<le> max 1 (nat (maxIterations options))"
    using search_loop_calls[of toBlob canvas "''image/'' @ (if format = ''jpg'' then ''jpeg'' else format)"
        "targetSizeKB * 1024" "tolerance options" "maxIterations options" "minQuality options"
        "maxQuality options" None "maxQuality options" 0 0]
    by (auto simp: findOptimalQuality_def Let_def split: sum.splits)
next
  show "(\<forall>mimeType quality. toBlob canvas mimeType quality \<noteq> None) \<longrightarrow>
        (\<exists>r. snd (findOptimalQuality toBlob canvas format targetSizeKB options) = Inr r
              \<and> sr_blob r \<noteq> None)"
  proof
    assume ok: "\<forall>mimeType quality. toBlob canvas mimeType quality \<noteq> None"
    show "\<exists>r. snd (findOptimalQuality toBlob canvas format targetSizeKB options) = Inr r
              \<and> sr_blob r \<noteq> None"
    proof (cases "format = ''png''")
      case True
      then show ?thesis using ok
        by (auto simp: findOptimalQuality_def Let_def canvasToBlob_sc_def split: option.splits)
    next
      case False
      let ?mime = "''image/'' @ (if format = ''jpg'' then ''jpeg'' else format)"
      have "\<forall>q. toBlob canvas ?mime q \<noteq> None"
        using ok by blast
      then show ?thesis
        using False
          search_loop_returns[of toBlob canvas ?mime "targetSizeKB * 1024" "tolerance options"
            "maxIterations options" "minQuality options" "maxQuality options" None
            "maxQuality options" 0 0]
        by (simp add: findOptimalQuality_def Let_def)
    qed
  qed
next
  show "\<forall>e. snd (findOptimalQuality toBlob canvas format targetSizeKB options) = Inl e \<longrightarrow>
          e = Error ''Failed to create blob''"
    using search_loop_rejects
    by (auto simp: findOptimalQuality_def Let_def canvasToBlob_sc_def split: option.splits if_splits)
qed

theorem findOptimalQuality_bounded_witness:
  "(\<forall>mimeType quality. empty_encoder () mimeType quality \<noteq> None)
   \<and> fst (findOptimalQuality empty_encoder () ''jpeg'' 100 default_options) \<le> 10
   \<and> (\<exists>r. snd (findOptimalQuality empty_encoder () ''jpeg'' 100 default_options) = Inr r
           \<and> sr_blob r \<noteq> None)
   \<and> snd (findOptimalQuality failing_encoder () ''jpeg'' 100 default_options)
       = Inl (Error ''Failed to create blob'')"
proof -
  have ok: "\<forall>mimeType quality. empty_encoder () mimeType quality \<noteq> None"
    by (simp add: empty_encoder_def)
  have fails: "\<exists>e. snd (findOptimalQuality failing_encoder () ''jpeg'' 100 default_options) = Inl e"
    by (simp add: findOptimalQuality_def default_options_def failing_encoder_def Let_def
        search_loop.simps canvasToBlob_sc_def js_round_def)
  have "maxIterations default_options = 10" by (simp add: default_options_def)
  then show ?thesis
    using ok fails
      findOptimalQuality_bounded [of empty_encoder "()" "''jpeg''" 100 default_options]
      findOptimalQuality_bounded [of failing_encoder "()" "''jpeg''" 100 default_options]
    by auto
qed

section \<open>Verification: format conversion and the encode paths\<close>

text \<open>
  C9. A blob whose MIME type already is the MIME type of the target format comes back
  from \<open>convertFormat\<close> as it is, the same blob, in every environment and for every
  quality, and no decode and no encode call is made.
\<close>

theorem convertFormat_identity:
  "blob_type b = getMimeType targetFormat \<Longrightarrow> convertFormat e b targetFormat quality = ([], Inr b)"
  by (simp add: convertFormat_def)

theorem convertFormat_identity_witness:
  "blob_type \<lparr> blob_type = ''image/webp'', blob_bytes = [82, 73, 70, 70] \<rparr> = getMimeType ''webp''
   \<and> convertFormat demo_env \<lparr> blob_type = ''image/webp'', blob_bytes = [82, 73, 70, 70] \<rparr> ''webp'' 80
       = ([], Inr \<lparr> blob_type = ''image/webp'', blob_bytes = [82, 73, 70, 70] \<rparr>)"
proof -
  have h: "blob_type \<lparr> blob_type = ''image/webp'', blob_bytes = [82, 73, 70, 70] \<rparr> = getMimeType ''webp''"
    by (simp add: getMimeType_def toLowerCase_def)
  show ?thesis using h convertFormat_identity [OF h, of demo_env 80] by simp
qed

text \<open>The pipeline on the concrete environment: a file that decodes, and the one that does not.\<close>

lemma processSingleFile_demo:
  "name \<noteq> ''broken.png'' \<Longrightarrow>
   processSingleFile demo_env (png_file ident name) jpeg_settings =
     ([(\<lparr> cv_width = 1, cv_height = 1,
          cv_ops = [Translate (1 / 2) (1 / 2), Translate (- (1 / 2)) (- (1 / 2)),
                    DrawImage transparent_image 0 0 (Some (1, 1)), SetTransformIdentity] \<rparr>,
        ''image/jpeg'', 4 / 5)],
      Inr (createResultObject \<lparr> blob_type = ''image/jpeg'', blob_bytes = [0, 0, 0] \<rparr>
             name 2048 ''jpeg'' []))"
  by (simp add: processSingleFile_def processImage_def loadImage_def demo_env_def png_file_def
      jpeg_settings_def transparent_image_def getExifOrientation_def transform_for_def
      ORIENTATION_TRANSFORMS_def applyExifTransform_def canvasToBlob_app_def normalizeQuality_def
      compressImage_def getMimeType_def toLowerCase_def Let_def mkImageOptimizerError_def)

lemma processSingleFile_broken:
  "processSingleFile demo_env (png_file ident ''broken.png'') jpeg_settings =
     ([], Inl (ImageOptimizerError ''Failed to load image'' FILE_CORRUPTED True))"
  by (simp add: processSingleFile_def processImage_def loadImage_def demo_env_def png_file_def
      jpeg_settings_def rethrow_def mkImageOptimizerError_def)

text \<open>The two encode paths: the canvas \<open>processImage\<close> builds is never filled, the canvas
  \<open>convertFormat\<close> builds for a JPEG target always is.\<close>

lemma processImage_no_white_fill:
  "processImage e f st = Inr pd \<Longrightarrow> \<not> white_background (pd_canvas pd)"
  by (auto simp: processImage_def loadImage_def Let_def white_background_def applyExifTransform_def
      split: option.splits if_splits sum.splits)

lemma convertFormat_white_fill:
  "targetFormat = ''jpeg'' \<or> targetFormat = ''jpg'' \<Longrightarrow>
   (cv, m, q) \<in> set (fst (convertFormat e b targetFormat quality)) \<Longrightarrow> white_background cv"
  by (auto simp: convertFormat_def Let_def white_background_def createImageFromBlob_def
      split: option.splits if_splits sum.splits)

text \<open>
  C5. With \<open>jpeg\<close> as target format the pipeline encodes the canvas of \<open>processImage\<close>
  directly: for a source with a transparent pixel its one encode call is made with type
  \<open>image/jpeg\<close> on a canvas that holds the transform and the image and no white fill. The
  blob has the target type, so the conversion step, the only place that fills the
  canvas white, is not reached.
\<close>

theorem jpeg_encode_without_white_fill:
  "has_transparent_pixel transparent_image
   \<and> processSingleFile demo_env (png_file ''1'' ''logo.png'') jpeg_settings =
       ([(\<lparr> cv_width = 1, cv_height = 1,
            cv_ops = [Translate (1 / 2) (1 / 2), Translate (- (1 / 2)) (- (1 / 2)),
                      DrawImage transparent_image 0 0 (Some (1, 1)), SetTransformIdentity] \<rparr>,
          ''image/jpeg'', 4 / 5)],
        Inr (createResultObject \<lparr> blob_type = ''image/jpeg'', blob_bytes = [0, 0, 0] \<rparr>
               ''logo.png'' 2048 ''jpeg'' []))
   \<and> \<not> white_background
         \<lparr> cv_width = 1, cv_height = 1,
           cv_ops = [Translate (1 / 2) (1 / 2), Translate (- (1 / 2)) (- (1 / 2)),
                     DrawImage transparent_image 0 0 (Some (1, 1)), SetTransformIdentity] \<rparr>"
  by (simp add: processSingleFile_demo white_background_def has_transparent_pixel_def
      transparent_image_def)

section \<open>Verification: the batch loop\<close>

lemma find_absent: "x \<notin> fd_id ` set fs \<Longrightarrow> find (\<lambda>g. fd_id g = x) fs = None"
  by (induction fs) auto

text \<open>With distinct ids, the loop settles the entry of every queued file and leaves the
  other entries alone.\<close>

lemma process_loop_files:
  "distinct (map fd_id fs) \<Longrightarrow>
   st_files (fst (process_loop e st fs s results successCount errorCount))
     = map (\<lambda>f. case find (\<lambda>g. fd_id g = fd_id f) fs of None \<Rightarrow> f | Some g \<Rightarrow> settle e st g f)
         (st_files s)"
proof (induction fs arbitrary: s results successCount errorCount)
  case Nil
  then show ?case by simp
next
  case (Cons g rest)
  have fresh: "fd_id g \<notin> fd_id ` set rest" and rest: "distinct (map fd_id rest)"
    using Cons.prems by auto
  show ?case
  proof (cases "snd (processSingleFile e g st)")
    case (Inl error)
    then show ?thesis
      using Cons.IH[OF rest] fresh
      by (auto simp: Let_def updateFile_def settle_def find_absent comp_def split: option.splits)
  next
    case (Inr result)
    then show ?thesis
      using Cons.IH[OF rest] fresh
      by (auto simp: Let_def updateFile_def settle_def find_absent comp_def split: option.splits)
  qed
qed

text \<open>The loop visits every file: it collects the results of the files that succeed, in
  order, and counts the others as errors.\<close>

lemma process_loop_counts:
  "snd (process_loop e st fs s results successCount errorCount)
     = (results @ successes e st fs,
        successCount + length (successes e st fs),
        errorCount + (length fs - length (successes e st fs)))"
proof (induction fs arbitrary: s results successCount errorCount)
  case Nil
  then show ?case by (simp add: successes_def)
next
  case (Cons g rest)
  have le: "length (successes e st rest) \<le> length rest"
    by (simp add: successes_def map_filter_def)
  show ?case
  proof (cases "snd (processSingleFile e g st)")
    case (Inl error)
    then show ?thesis using Cons.IH le
      by (simp add: Let_def successes_def)
  next
    case (Inr result)
    then show ?thesis using Cons.IH le
      by (simp add: Let_def successes_def)
  qed
qed

text \<open>
  C2. For a queue of five files with distinct ids in which the pipeline fails on the third
  file and succeeds on the other four, the batch run ends with five entries: the third with
  status \<open>error\<close> and the message of the failure, the other four with status \<open>done\<close> and
  their result. The four results are handed on in order, and the run counts four
  successes and one error: the failure stops nothing.
\<close>

theorem batch_isolation:
  assumes files: "st_files s = [f1, f2, f3, f4, f5]"
    and ids: "distinct (map fd_id [f1, f2, f3, f4, f5])"
    and ok1: "snd (processSingleFile e f1 (st_settings s)) = Inr r1"
    and ok2: "snd (processSingleFile e f2 (st_settings s)) = Inr r2"
    and bad: "snd (processSingleFile e f3 (st_settings s)) = Inl err"
    and ok4: "snd (processSingleFile e f4 (st_settings s)) = Inr r4"
    and ok5: "snd (processSingleFile e f5 (st_settings s)) = Inr r5"
  shows "\<exists>s'. processAllFiles e s = (s', 4, 1)
           \<and> st_files s' =
               [f1 \<lparr> fd_status := StatusDone, fd_result := Some r1 \<rparr>,
                f2 \<lparr> fd_status := StatusDone, fd_result := Some r2 \<rparr>,
                f3 \<lparr> fd_status := StatusError, fd_error := Some (message err) \<rparr>,
                f4 \<lparr> fd_status := StatusDone, fd_result := Some r4 \<rparr>,
                f5 \<lparr> fd_status := StatusDone, fd_result := Some r5 \<rparr>]
           \<and> processedResults s' = [r1, r2, r4, r5]"
proof -
  let ?fs = "[f1, f2, f3, f4, f5]"
  let ?st = "st_settings s"
  let ?s0 = "s \<lparr> st_processing := \<lparr> isProcessing = True, currentIndex = 0,
                                     totalFiles = length ?fs, progress = 0 \<rparr> \<rparr>"
  obtain s1 results successCount errorCount
    where run: "process_loop e ?st ?fs ?s0 [] 0 0 = (s1, results, successCount, errorCount)"
    by (cases "process_loop e ?st ?fs ?s0 [] 0 0") auto
  have succ: "successes e ?st ?fs = [r1, r2, r4, r5]"
    using ok1 ok2 bad ok4 ok5 by (simp add: successes_def)
  have "snd (process_loop e ?st ?fs ?s0 [] 0 0) = ([r1, r2, r4, r5], 4, 1)"
    unfolding process_loop_counts succ by simp
  then have counts: "results = [r1, r2, r4, r5]" "successCount = 4" "errorCount = 1"
    using run by simp_all
  have "st_files (fst (process_loop e ?st ?fs ?s0 [] 0 0))
          = map (\<lambda>f. case find (\<lambda>g. fd_id g = fd_id f) ?fs of None \<Rightarrow> f | Some g \<Rightarrow> settle e ?st g f)
              (st_files ?s0)"
    using ids by (rule process_loop_files)
  then have final: "st_files s1 =
               [f1 \<lparr> fd_status := StatusDone, fd_result := Some r1 \<rparr>,
                f2 \<lparr> fd_status := StatusDone, fd_result := Some r2 \<rparr>,
                f3 \<lparr> fd_status := StatusError, fd_error := Some (message err) \<rparr>,
                f4 \<lparr> fd_status := StatusDone, fd_result := Some r4 \<rparr>,
                f5 \<lparr> fd_status := StatusDone, fd_result := Some r5 \<rparr>]"
    using run ids files ok1 ok2 bad ok4 ok5 by (auto simp: settle_def)
  show ?thesis
    using run counts final files
    by (simp add: processAllFiles_def Let_def)
qed

theorem batch_isolation_witness:
  "distinct (map fd_id (st_files demo_state))
   \<and> (\<exists>s'. processAllFiles demo_env demo_state = (s', 4, 1)
          \<and> length (st_files s') = 5
          \<and> map fd_status (st_files s')
              = [StatusDone, StatusDone, StatusError, StatusDone, StatusDone]
          \<and> map fd_error (st_files s') = [None, None, Some ''Failed to load image'', None, None]
          \<and> length (processedResults s') = 4)"
proof -
  let ?b = "\<lparr> blob_type = ''image/jpeg'', blob_bytes = [0, 0, 0] \<rparr>"
  have files: "st_files demo_state =
      [png_file ''1'' ''a.png'', png_file ''2'' ''b.png'', png_file ''3'' ''broken.png'',
       png_file ''4'' ''d.png'', png_file ''5'' ''e.png'']"
    by (simp add: demo_state_def)
  have ids: "distinct (map fd_id [png_file ''1'' ''a.png'', png_file ''2'' ''b.png'',
       png_file ''3'' ''broken.png'', png_file ''4'' ''d.png'', png_file ''5'' ''e.png''])"
    by (simp add: png_file_def)
  have st: "st_settings demo_state = jpeg_settings" by (simp add: demo_state_def)
  have ok: "\<And>ident name. name \<noteq> ''broken.png'' \<Longrightarrow>
      snd (processSingleFile demo_env (png_file ident name) (st_settings demo_state))
        = Inr (createResultObject ?b name 2048 ''jpeg'' [])"
    by (simp add: st processSingleFile_demo)
  have bad: "snd (processSingleFile demo_env (png_file ''3'' ''broken.png'') (st_settings demo_state))
        = Inl (ImageOptimizerError ''Failed to load image'' FILE_CORRUPTED True)"
    by (simp add: st processSingleFile_broken)
  have a: "''a.png'' \<noteq> ''broken.png''" and b: "''b.png'' \<noteq> ''broken.png''"
    and d: "''d.png'' \<noteq> ''broken.png''" and e: "''e.png'' \<noteq> ''broken.png''"
    by simp_all
  from batch_isolation [OF files ids ok [OF a, of "''1''"] ok [OF b, of "''2''"] bad
      ok [OF d, of "''4''"] ok [OF e, of "''5''"]]
  show ?thesis using files ids by (auto simp: png_file_def)
qed

end
